theory Spec2Isabelle
  imports Complex_Main
begin

section \<open>Values of the Python program\<close>

text \<open>
  The exceptions that the modelled code can meet. \<open>FitFailure\<close> and \<open>ScoreFailure\<close> stand for
  whatever the external Gaussian-HMM library raises from \<open>fit\<close> and \<open>score\<close>; the others are
  Python's own.
\<close>

datatype exn =
  FitFailure | ScoreFailure | AttributeError | KeyError | ValueError | IndexError
  | UnboundLocalError

text \<open>
  A Python float: the IEEE special values are kept apart, the finite values are idealised
  as reals (rounding and overflow of finite arithmetic are not modelled).
\<close>

datatype pyfloat = NaN | NInf | Fin real | PInf

text \<open>Python's \<open>a < b\<close> and \<open>a > b\<close> on floats: every comparison with NaN is false.\<close>

fun flt :: "pyfloat \<Rightarrow> pyfloat \<Rightarrow> bool" where
  "flt NInf (Fin y) = True"
| "flt NInf PInf = True"
| "flt (Fin x) (Fin y) = (x < y)"
| "flt (Fin x) PInf = True"
| "flt a b = False"

definition fgt :: "pyfloat \<Rightarrow> pyfloat \<Rightarrow> bool" where
  "fgt a b = flt b a"

fun fneg :: "pyfloat \<Rightarrow> pyfloat" where
  "fneg NaN = NaN"
| "fneg NInf = PInf"
| "fneg (Fin x) = Fin (- x)"
| "fneg PInf = NInf"

fun fadd :: "pyfloat \<Rightarrow> pyfloat \<Rightarrow> pyfloat" where
  "fadd (Fin x) (Fin y) = Fin (x + y)"
| "fadd NaN b = NaN"
| "fadd a NaN = NaN"
| "fadd PInf NInf = NaN"
| "fadd NInf PInf = NaN"
| "fadd PInf b = PInf"
| "fadd NInf b = NInf"
| "fadd a PInf = PInf"
| "fadd a NInf = NInf"

definition fsub :: "pyfloat \<Rightarrow> pyfloat \<Rightarrow> pyfloat" where
  "fsub a b = fadd a (fneg b)"

text \<open>An infinity times a finite factor: NaN at zero, otherwise the sign rule.\<close>

definition inf_times :: "bool \<Rightarrow> real \<Rightarrow> pyfloat" where
  "inf_times positive y =
     (if y = 0 then NaN else if (0 < y) = positive then PInf else NInf)"

fun fmul :: "pyfloat \<Rightarrow> pyfloat \<Rightarrow> pyfloat" where
  "fmul (Fin x) (Fin y) = Fin (x * y)"
| "fmul NaN b = NaN"
| "fmul a NaN = NaN"
| "fmul PInf (Fin y) = inf_times True y"
| "fmul NInf (Fin y) = inf_times False y"
| "fmul (Fin x) PInf = inf_times True x"
| "fmul (Fin x) NInf = inf_times False x"
| "fmul PInf PInf = PInf"
| "fmul NInf NInf = PInf"
| "fmul PInf NInf = NInf"
| "fmul NInf PInf = NInf"

text \<open>Division of a float by a positive count, as \<open>np.mean\<close> does after summing.\<close>

fun fdiv_count :: "pyfloat \<Rightarrow> nat \<Rightarrow> pyfloat" where
  "fdiv_count (Fin x) n = Fin (x / real n)"
| "fdiv_count a n = a"

text \<open>
  \<open>np.mean\<close> of a list of floats: the sum over the count; of the empty list it is NaN
  (numpy warns, it does not raise).
\<close>

definition np_mean :: "pyfloat list \<Rightarrow> pyfloat" where
  "np_mean xs = (if xs = [] then NaN else fdiv_count (foldl fadd (Fin 0) xs) (length xs))"

text \<open>\<open>np.log\<close> of a length: minus infinity at zero (a warning, not an exception).\<close>

definition np_log :: "nat \<Rightarrow> pyfloat" where
  "np_log n = (if n = 0 then NInf else Fin (ln (real n)))"

text \<open>
  \<open>min(scores, key = lambda x: x[0])\<close> and \<open>max(...)\<close>: the first item is the running
  best, a later item replaces it only when its key is strictly smaller (greater). On the
  empty list Python raises ValueError.
\<close>

fun min_scan :: "pyfloat \<times> 'a \<Rightarrow> (pyfloat \<times> 'a) list \<Rightarrow> pyfloat \<times> 'a" where
  "min_scan best [] = best"
| "min_scan best (x # xs) = min_scan (if flt (fst x) (fst best) then x else best) xs"

fun max_scan :: "pyfloat \<times> 'a \<Rightarrow> (pyfloat \<times> 'a) list \<Rightarrow> pyfloat \<times> 'a" where
  "max_scan best [] = best"
| "max_scan best (x # xs) = max_scan (if fgt (fst x) (fst best) then x else best) xs"

fun py_min :: "(pyfloat \<times> 'a) list \<Rightarrow> exn + pyfloat \<times> 'a" where
  "py_min [] = Inl ValueError"
| "py_min (x # xs) = Inr (min_scan x xs)"

fun py_max :: "(pyfloat \<times> 'a) list \<Rightarrow> exn + pyfloat \<times> 'a" where
  "py_max [] = Inl ValueError"
| "py_max (x # xs) = Inr (max_scan x xs)"

text \<open>
  A Python dict as an association list in insertion order; \<open>d[k] = v\<close> overwrites the
  value of a key already present and appends a new key otherwise.
\<close>

fun dict_set :: "('k \<times> 'v) list \<Rightarrow> 'k \<Rightarrow> 'v \<Rightarrow> ('k \<times> 'v) list" where
  "dict_set [] k v = [(k, v)]"
| "dict_set ((k', v') # d) k v =
     (if k' = k then (k, v) # d else (k', v') # dict_set d k v)"

text \<open>\<open>try: body except: handler\<close> with a bare \<open>except\<close>, which catches everything.\<close>

definition try_except :: "exn + 'a \<Rightarrow> (exn \<Rightarrow> exn + 'a) \<Rightarrow> exn + 'a" where
  "try_except body handler = (case body of Inl e \<Rightarrow> handler e | Inr v \<Rightarrow> Inr v)"

section \<open>Observations and the external Gaussian HMM\<close>

type_synonym frame = "real list"
type_synonym sequence = "frame list"
type_synonym Xlengths = "frame list \<times> nat list"

text \<open>
  A fitted \<open>GaussianHMM\<close>: the constructor arguments that vary (\<open>n_components\<close>,
  \<open>random_state\<close>), the feature dimensionality set by \<open>fit\<close>, and the fitted parameters,
  opaque here. The fixed arguments \<open>covariance_type="diag"\<close>, \<open>n_iter=1000\<close> belong to
  the fitter.
\<close>

record 'p GaussianHMM =
  n_components :: int
  random_state :: int
  n_features :: int
  fitted :: 'p

text \<open>
  The library's \<open>fit\<close> and \<open>score\<close> are parameters of the model: any function, failing
  wherever it likes. \<open>fit n seed X lengths\<close> gives the feature dimensionality and the fitted
  parameters, or raises; \<open>score model X lengths\<close> gives a log-likelihood, or raises.
  Both are functions of their arguments: the library is taken to leave the arrays it is
  given as they are.
\<close>

type_synonym 'p fitter = "int \<Rightarrow> int \<Rightarrow> frame list \<Rightarrow> nat list \<Rightarrow> exn + int \<times> 'p"
type_synonym 'p scorer = "'p GaussianHMM \<Rightarrow> frame list \<Rightarrow> nat list \<Rightarrow> exn + pyfloat"

text \<open>\<open>GaussianHMM(n_components=n, ..., random_state=seed).fit(X, lengths)\<close>\<close>

definition GaussianHMM_fit ::
  "'p fitter \<Rightarrow> int \<Rightarrow> int \<Rightarrow> frame list \<Rightarrow> nat list \<Rightarrow> exn + 'p GaussianHMM" where
  "GaussianHMM_fit fit n seed X lengths =
     (case fit n seed X lengths of
        Inl e \<Rightarrow> Inl e
      | Inr (d, p) \<Rightarrow>
          Inr \<lparr>n_components = n, random_state = seed, n_features = d, fitted = p\<rparr>)"

text \<open>
  What a variable named \<open>model\<close> can hold, and what \<open>select()\<close> can return: \<open>None\<close>, an
  integer, or a fitted model.
\<close>

datatype 'p pyval = PyNone | PyInt int | PyModel "'p GaussianHMM"

text \<open>\<open>model.score(X, lengths)\<close>: AttributeError unless \<open>model\<close> is a fitted model.\<close>

fun pyval_score :: "'p scorer \<Rightarrow> 'p pyval \<Rightarrow> frame list \<Rightarrow> nat list \<Rightarrow> exn + pyfloat" where
  "pyval_score score (PyModel m) X lengths = score m X lengths"
| "pyval_score score v X lengths = Inl AttributeError"

text \<open>\<open>model.n_features\<close>\<close>

fun pyval_n_features :: "'p pyval \<Rightarrow> exn + int" where
  "pyval_n_features (PyModel m) = Inr (n_features m)"
| "pyval_n_features v = Inl AttributeError"

text \<open>
  Modelled from the spec: \<open>combine_sequences\<close> of \<open>asl_utils\<close> is not among the source
  files. By the specification it returns the sequences at the given index positions,
  concatenated in the order of the indices, with the list of their lengths, and fails only
  on an index out of range.
\<close>

definition combine_sequences :: "nat list \<Rightarrow> sequence list \<Rightarrow> exn + Xlengths" where
  "combine_sequences split_index_list sequences =
     (if list_all (\<lambda>idx. idx < length sequences) split_index_list
      then Inr (concat (map (\<lambda>idx. sequences ! idx) split_index_list),
                map (\<lambda>idx. length (sequences ! idx)) split_index_list)
      else Inl IndexError)"

text \<open>
  \<open>KFold().split(sequences)\<close> of scikit-learn is a parameter as well: from the number of
  samples it gives the list of (train indices, test indices) pairs, or raises.
\<close>

type_synonym splitter = "nat \<Rightarrow> exn + (nat list \<times> nat list) list"

section \<open>my_model_selectors.py\<close>

subsection \<open>ModelSelector\<close>

record ModelSelector =
  self_words :: "(string \<times> sequence list) list"
  self_hwords :: "(string \<times> Xlengths) list"
  self_sequences :: "sequence list"
  self_X :: "frame list"
  self_lengths :: "nat list"
  self_this_word :: string
  self_n_constant :: int
  self_min_n_components :: int
  self_max_n_components :: int
  self_random_state :: int
  self_verbose :: bool

text \<open>\<open>__init__\<close>: a word missing from either dict raises KeyError.\<close>

definition ModelSelector_init ::
  "(string \<times> sequence list) list \<Rightarrow> (string \<times> Xlengths) list \<Rightarrow> string \<Rightarrow>
   int \<Rightarrow> int \<Rightarrow> int \<Rightarrow> int \<Rightarrow> bool \<Rightarrow> exn + ModelSelector" where
  "ModelSelector_init all_word_sequences all_word_Xlengths this_word
     n_constant min_n_components max_n_components seed verbose =
     (case map_of all_word_sequences this_word of
        None \<Rightarrow> Inl KeyError
      | Some seqs \<Rightarrow>
          (case map_of all_word_Xlengths this_word of
             None \<Rightarrow> Inl KeyError
           | Some (X, lengths) \<Rightarrow>
               Inr \<lparr>self_words = all_word_sequences, self_hwords = all_word_Xlengths,
                    self_sequences = seqs, self_X = X, self_lengths = lengths,
                    self_this_word = this_word, self_n_constant = n_constant,
                    self_min_n_components = min_n_components,
                    self_max_n_components = max_n_components,
                    self_random_state = seed, self_verbose = verbose\<rparr>))"

text \<open>
  \<open>base_model\<close>: fit on \<open>self.X, self.lengths\<close>; any exception of the fit is caught and
  \<open>None\<close> returned. (The verbose printing and the warning filter change no value and are
  left out.)
\<close>

definition base_model :: "'p fitter \<Rightarrow> ModelSelector \<Rightarrow> int \<Rightarrow> exn + 'p pyval" where
  "base_model fit s num_states =
     try_except
       (case GaussianHMM_fit fit num_states (self_random_state s) (self_X s) (self_lengths s) of
          Inl e \<Rightarrow> Inl e
        | Inr hmm_model \<Rightarrow> Inr (PyModel hmm_model))
       (\<lambda>e. Inr PyNone)"

text \<open>\<open>range(self.min_n_components, self.max_n_components + 1)\<close>\<close>

definition candidate_range :: "ModelSelector \<Rightarrow> int list" where
  "candidate_range s = [self_min_n_components s .. self_max_n_components s]"

subsection \<open>SelectorConstant\<close>

definition SelectorConstant_select :: "'p fitter \<Rightarrow> ModelSelector \<Rightarrow> exn + 'p pyval" where
  "SelectorConstant_select fit s =
     (let best_num_components = self_n_constant s in base_model fit s best_num_components)"

subsection \<open>SelectorBIC\<close>

text \<open>The body of the \<open>try\<close> for one \<open>num_states\<close>.\<close>

definition SelectorBIC_trial ::
  "'p fitter \<Rightarrow> 'p scorer \<Rightarrow> ModelSelector \<Rightarrow> int \<Rightarrow> exn + pyfloat \<times> 'p pyval" where
  "SelectorBIC_trial fit score s num_states =
     (case base_model fit s num_states of
        Inl e \<Rightarrow> Inl e
      | Inr model \<Rightarrow>
     (case pyval_score score model (self_X s) (self_lengths s) of
        Inl e \<Rightarrow> Inl e
      | Inr logL \<Rightarrow>
     (let logN = np_log (length (self_X s)) in
      case pyval_n_features model of
        Inl e \<Rightarrow> Inl e
      | Inr d \<Rightarrow>
     (let p = num_states ^ 2 + 2 * d * num_states - 1;
          result = fadd (fmul (Fin (- 2)) logL) (fmul (Fin (of_int p)) logN)
      in Inr (result, model)))))"

text \<open>
  The \<open>for\<close> loop with its \<open>try ... except: pass\<close>: a trial that raises leaves \<open>scores\<close>
  as it was.
\<close>

fun SelectorBIC_loop ::
  "'p fitter \<Rightarrow> 'p scorer \<Rightarrow> ModelSelector \<Rightarrow> int list \<Rightarrow> (pyfloat \<times> 'p pyval) list \<Rightarrow>
   exn + (pyfloat \<times> 'p pyval) list" where
  "SelectorBIC_loop fit score s [] scores = Inr scores"
| "SelectorBIC_loop fit score s (num_states # rest) scores =
     (case try_except
             (case SelectorBIC_trial fit score s num_states of
                Inl e \<Rightarrow> Inl e
              | Inr result \<Rightarrow> Inr (scores @ [result]))
             (\<lambda>e. Inr scores) of
        Inl e \<Rightarrow> Inl e
      | Inr scores' \<Rightarrow> SelectorBIC_loop fit score s rest scores')"

definition SelectorBIC_select ::
  "'p fitter \<Rightarrow> 'p scorer \<Rightarrow> ModelSelector \<Rightarrow> exn + 'p pyval" where
  "SelectorBIC_select fit score s =
     (case SelectorBIC_loop fit score s (candidate_range s) [] of
        Inl e \<Rightarrow> Inl e
      | Inr scores \<Rightarrow>
          if scores \<noteq> [] then
            (case py_min scores of Inl e \<Rightarrow> Inl e | Inr minimum \<Rightarrow> Inr (snd minimum))
          else Inr (PyInt (self_n_constant s)))"

subsection \<open>SelectorDIC\<close>

text \<open>The inner loop over \<open>self.hwords.items()\<close>, filling \<open>scores_temp\<close>.\<close>

fun SelectorDIC_others ::
  "'p scorer \<Rightarrow> 'p pyval \<Rightarrow> string \<Rightarrow> (string \<times> Xlengths) list \<Rightarrow> pyfloat list \<Rightarrow>
   exn + pyfloat list" where
  "SelectorDIC_others score model this_word [] scores_temp = Inr scores_temp"
| "SelectorDIC_others score model this_word ((word, (X, lengths)) # rest) scores_temp =
     (if word \<noteq> this_word then
        (case pyval_score score model X lengths of
           Inl e \<Rightarrow> Inl e
         | Inr v \<Rightarrow> SelectorDIC_others score model this_word rest (scores_temp @ [v]))
      else SelectorDIC_others score model this_word rest scores_temp)"

definition SelectorDIC_trial ::
  "'p fitter \<Rightarrow> 'p scorer \<Rightarrow> ModelSelector \<Rightarrow> int \<Rightarrow> exn + pyfloat \<times> 'p pyval" where
  "SelectorDIC_trial fit score s num_states =
     (case base_model fit s num_states of
        Inl e \<Rightarrow> Inl e
      | Inr model \<Rightarrow>
     (case SelectorDIC_others score model (self_this_word s) (self_hwords s) [] of
        Inl e \<Rightarrow> Inl e
      | Inr scores_temp \<Rightarrow>
     (case pyval_score score model (self_X s) (self_lengths s) of
        Inl e \<Rightarrow> Inl e
      | Inr own \<Rightarrow> Inr (fsub own (np_mean scores_temp), model))))"

fun SelectorDIC_loop ::
  "'p fitter \<Rightarrow> 'p scorer \<Rightarrow> ModelSelector \<Rightarrow> int list \<Rightarrow> (pyfloat \<times> 'p pyval) list \<Rightarrow>
   exn + (pyfloat \<times> 'p pyval) list" where
  "SelectorDIC_loop fit score s [] scores = Inr scores"
| "SelectorDIC_loop fit score s (num_states # rest) scores =
     (case try_except
             (case SelectorDIC_trial fit score s num_states of
                Inl e \<Rightarrow> Inl e
              | Inr result \<Rightarrow> Inr (scores @ [result]))
             (\<lambda>e. Inr scores) of
        Inl e \<Rightarrow> Inl e
      | Inr scores' \<Rightarrow> SelectorDIC_loop fit score s rest scores')"

definition SelectorDIC_select ::
  "'p fitter \<Rightarrow> 'p scorer \<Rightarrow> ModelSelector \<Rightarrow> exn + 'p pyval" where
  "SelectorDIC_select fit score s =
     (case SelectorDIC_loop fit score s (candidate_range s) [] of
        Inl e \<Rightarrow> Inl e
      | Inr scores \<Rightarrow>
          if scores \<noteq> [] then
            (case py_max scores of Inl e \<Rightarrow> Inl e | Inr maximum \<Rightarrow> Inr (snd maximum))
          else Inr (PyInt (self_n_constant s)))"

subsection \<open>SelectorCV\<close>

text \<open>
  The variable \<open>likelihoods\<close> starts as a list and is rebound to a single float on the
  path without folds; \<open>append\<close> on a float raises AttributeError, \<open>np.mean\<close> of a float is
  that float.
\<close>

datatype pylik = LList "pyfloat list" | LScalar pyfloat

fun lik_append :: "pylik \<Rightarrow> pyfloat \<Rightarrow> exn + pylik" where
  "lik_append (LList xs) v = Inr (LList (xs @ [v]))"
| "lik_append (LScalar x) v = Inl AttributeError"

fun np_mean_lik :: "pylik \<Rightarrow> pyfloat" where
  "np_mean_lik (LList xs) = np_mean xs"
| "np_mean_lik (LScalar x) = x"

text \<open>
  What \<open>SelectorCV.select\<close> changes while it runs: the selector itself (\<open>self.X\<close>,
  \<open>self.lengths\<close>) and the locals \<open>likelihoods\<close>, \<open>model\<close> (unbound at first) and
  \<open>scores\<close>. An exception leaves the changes made before it in place.
\<close>

record 'p cv_frame =
  cv_self :: ModelSelector
  cv_likelihoods :: pylik
  cv_model :: "'p pyval option"
  cv_scores :: "(pyfloat \<times> 'p pyval) list"

text \<open>The body of the loop over the folds, for one (train, test) pair.\<close>

definition SelectorCV_fold ::
  "'p fitter \<Rightarrow> 'p scorer \<Rightarrow> int \<Rightarrow> nat list \<times> nat list \<Rightarrow> 'p cv_frame \<Rightarrow>
   (exn + unit) \<times> 'p cv_frame" where
  "SelectorCV_fold fit score num_states indices fr =
     (case indices of (train_index, test_index) \<Rightarrow>
      case combine_sequences train_index (self_sequences (cv_self fr)) of
        Inl e \<Rightarrow> (Inl e, fr)
      | Inr (X_train, lengths_train) \<Rightarrow>
     (let fr1 = fr\<lparr>cv_self := (cv_self fr)\<lparr>self_X := X_train, self_lengths := lengths_train\<rparr>\<rparr> in
      case combine_sequences test_index (self_sequences (cv_self fr1)) of
        Inl e \<Rightarrow> (Inl e, fr1)
      | Inr (X_test, lengths_test) \<Rightarrow>
     (case base_model fit (cv_self fr1) num_states of
        Inl e \<Rightarrow> (Inl e, fr1)
      | Inr model \<Rightarrow>
     (let fr2 = fr1\<lparr>cv_model := Some model\<rparr> in
      case pyval_score score model X_test lengths_test of
        Inl e \<Rightarrow> (Inl e, fr2)
      | Inr likelihood \<Rightarrow>
     (case lik_append (cv_likelihoods fr2) likelihood of
        Inl e \<Rightarrow> (Inl e, fr2)
      | Inr likelihoods' \<Rightarrow> (Inr (), fr2\<lparr>cv_likelihoods := likelihoods'\<rparr>))))))"

fun SelectorCV_folds ::
  "'p fitter \<Rightarrow> 'p scorer \<Rightarrow> int \<Rightarrow> (nat list \<times> nat list) list \<Rightarrow> 'p cv_frame \<Rightarrow>
   (exn + unit) \<times> 'p cv_frame" where
  "SelectorCV_folds fit score num_states [] fr = (Inr (), fr)"
| "SelectorCV_folds fit score num_states (indices # rest) fr =
     (case SelectorCV_fold fit score num_states indices fr of
        (Inl e, fr') \<Rightarrow> (Inl e, fr')
      | (Inr u, fr') \<Rightarrow> SelectorCV_folds fit score num_states rest fr')"

text \<open>The body of the \<open>try\<close> for one \<open>num_states\<close>.\<close>

definition SelectorCV_trial ::
  "splitter \<Rightarrow> 'p fitter \<Rightarrow> 'p scorer \<Rightarrow> int \<Rightarrow> 'p cv_frame \<Rightarrow> (exn + unit) \<times> 'p cv_frame" where
  "SelectorCV_trial split fit score num_states fr =
     (case
        (if length (self_sequences (cv_self fr)) > 2 then
           (case split (length (self_sequences (cv_self fr))) of
              Inl e \<Rightarrow> (Inl e, fr)
            | Inr folds \<Rightarrow> SelectorCV_folds fit score num_states folds fr)
         else
           (case base_model fit (cv_self fr) num_states of
              Inl e \<Rightarrow> (Inl e, fr)
            | Inr model \<Rightarrow>
           (let fr1 = fr\<lparr>cv_model := Some model\<rparr> in
            case pyval_score score model (self_X (cv_self fr1)) (self_lengths (cv_self fr1)) of
              Inl e \<Rightarrow> (Inl e, fr1)
            | Inr v \<Rightarrow> (Inr (), fr1\<lparr>cv_likelihoods := LScalar v\<rparr>))))
      of
        (Inl e, fr') \<Rightarrow> (Inl e, fr')
      | (Inr u, fr') \<Rightarrow>
          (case cv_model fr' of
             None \<Rightarrow> (Inl UnboundLocalError, fr')
           | Some model \<Rightarrow>
               (Inr (), fr'\<lparr>cv_scores :=
                            cv_scores fr' @ [(np_mean_lik (cv_likelihoods fr'), model)]\<rparr>)))"

text \<open>The \<open>for\<close> loop: \<open>except: pass\<close> goes on with whatever the trial left behind.\<close>

fun SelectorCV_loop ::
  "splitter \<Rightarrow> 'p fitter \<Rightarrow> 'p scorer \<Rightarrow> int list \<Rightarrow> 'p cv_frame \<Rightarrow>
   (exn + unit) \<times> 'p cv_frame" where
  "SelectorCV_loop split fit score [] fr = (Inr (), fr)"
| "SelectorCV_loop split fit score (num_states # rest) fr =
     (case SelectorCV_trial split fit score num_states fr of
        (Inl e, fr') \<Rightarrow> SelectorCV_loop split fit score rest fr'
      | (Inr u, fr') \<Rightarrow> SelectorCV_loop split fit score rest fr')"

text \<open>\<open>select\<close> returns its value and leaves the selector object as the loop made it.\<close>

definition SelectorCV_select ::
  "splitter \<Rightarrow> 'p fitter \<Rightarrow> 'p scorer \<Rightarrow> ModelSelector \<Rightarrow> (exn + 'p pyval) \<times> ModelSelector" where
  "SelectorCV_select split fit score s =
     (case SelectorCV_loop split fit score (candidate_range s)
             \<lparr>cv_self = s, cv_likelihoods = LList [], cv_model = None, cv_scores = []\<rparr> of
        (Inl e, fr) \<Rightarrow> (Inl e, cv_self fr)
      | (Inr u, fr) \<Rightarrow>
          (if cv_scores fr \<noteq> [] then
             (case py_max (cv_scores fr) of Inl e \<Rightarrow> Inl e | Inr maximum \<Rightarrow> Inr (snd maximum))
           else Inr (PyInt (self_n_constant (cv_self fr))),
           cv_self fr))"

subsection \<open>The four variants behind one \<open>select()\<close>\<close>

datatype selector = Constant | BIC | DIC | CV

text \<open>
  \<open>select()\<close> of a selector object, with the object after the call. Only \<open>SelectorCV\<close>
  assigns to attributes of \<open>self\<close>; the other three bodies contain no such assignment.
\<close>

fun select ::
  "selector \<Rightarrow> splitter \<Rightarrow> 'p fitter \<Rightarrow> 'p scorer \<Rightarrow> ModelSelector \<Rightarrow>
   (exn + 'p pyval) \<times> ModelSelector" where
  "select Constant split fit score s = (SelectorConstant_select fit s, s)"
| "select BIC split fit score s = (SelectorBIC_select fit score s, s)"
| "select DIC split fit score s = (SelectorDIC_select fit score s, s)"
| "select CV split fit score s = SelectorCV_select split fit score s"

section \<open>my_recognizer.py\<close>

text \<open>
  The inner loop over \<open>models.items()\<close> for one test item, on the locals \<open>best_score\<close>,
  \<open>best_guess\<close> and \<open>likelihoods\<close>. The comparison reads back the value just stored.
\<close>

fun recognize_models ::
  "'p scorer \<Rightarrow> frame list \<Rightarrow> nat list \<Rightarrow> (string \<times> 'p pyval) list \<Rightarrow>
   pyfloat \<times> string option \<times> (string \<times> pyfloat) list \<Rightarrow>
   exn + pyfloat \<times> string option \<times> (string \<times> pyfloat) list" where
  "recognize_models score X lengths [] st = Inr st"
| "recognize_models score X lengths ((word, model) # rest) (best_score, best_guess, likelihoods) =
     (case try_except
             (case pyval_score score model X lengths of
                Inl e \<Rightarrow> Inl e
              | Inr v \<Rightarrow>
                  (let likelihoods' = dict_set likelihoods word v in
                   if fgt v best_score then Inr (v, Some word, likelihoods')
                   else Inr (best_score, best_guess, likelihoods')))
             (\<lambda>e. Inr (best_score, best_guess, dict_set likelihoods word NInf)) of
        Inl e \<Rightarrow> Inl e
      | Inr st' \<Rightarrow> recognize_models score X lengths rest st')"

text \<open>The outer loop over the test items, appending to \<open>probabilities\<close> and \<open>guesses\<close>.\<close>

fun recognize_items ::
  "'p scorer \<Rightarrow> (string \<times> 'p pyval) list \<Rightarrow> Xlengths list \<Rightarrow>
   (string \<times> pyfloat) list list \<times> string option list \<Rightarrow>
   exn + (string \<times> pyfloat) list list \<times> string option list" where
  "recognize_items score models [] out = Inr out"
| "recognize_items score models ((X, lengths) # rest) (probabilities, guesses) =
     (case recognize_models score X lengths models (NInf, None, []) of
        Inl e \<Rightarrow> Inl e
      | Inr (best_score, best_guess, likelihoods) \<Rightarrow>
          recognize_items score models rest
            (probabilities @ [likelihoods], guesses @ [best_guess]))"

text \<open>
  \<open>recognize\<close>: \<open>models\<close> is the dict of word models in its iteration order, \<open>test_set\<close> the
  dict that \<open>get_all_Xlengths()\<close> returns (item id to observations), in its iteration order.
\<close>

definition recognize ::
  "'p scorer \<Rightarrow> (string \<times> 'p pyval) list \<Rightarrow> (nat \<times> Xlengths) list \<Rightarrow>
   exn + (string \<times> pyfloat) list list \<times> string option list" where
  "recognize score models test_set = recognize_items score models (map snd test_set) ([], [])"

section \<open>Notions used to state the properties\<close>

text \<open>
  The likelihood that \<open>recognize\<close> records for each word of \<open>models\<close> on one test item:
  the score, or minus infinity where scoring raises.
\<close>

definition recorded_likelihoods ::
  "'p scorer \<Rightarrow> frame list \<Rightarrow> nat list \<Rightarrow> (string \<times> 'p pyval) list \<Rightarrow> (string \<times> pyfloat) list" where
  "recorded_likelihoods score X lengths models =
     map (\<lambda>(word, model).
            (word, case pyval_score score model X lengths of Inl e \<Rightarrow> NInf | Inr v \<Rightarrow> v)) models"

text \<open>The running best score and guess over a list of recorded likelihoods.\<close>

fun guess_scan :: "(string \<times> pyfloat) list \<Rightarrow> pyfloat \<times> string option \<Rightarrow> pyfloat \<times> string option" where
  "guess_scan [] st = st"
| "guess_scan ((w, v) # rest) (best_score, best_guess) =
     guess_scan rest (if fgt v best_score then (v, Some w) else (best_score, best_guess))"

subsection \<open>Candidates of the selectors\<close>

text \<open>The model fitted with \<open>n\<close> states on the selector's \<open>X\<close> and \<open>lengths\<close>, if the fit succeeds.\<close>

definition fitted_model :: "'p fitter \<Rightarrow> ModelSelector \<Rightarrow> int \<Rightarrow> 'p GaussianHMM option" where
  "fitted_model fit s n =
     (case fit n (self_random_state s) (self_X s) (self_lengths s) of
        Inl e \<Rightarrow> None
      | Inr (d, p) \<Rightarrow>
          Some \<lparr>n_components = n, random_state = self_random_state s, n_features = d,
                fitted = p\<rparr>)"

text \<open>
  The criterion of the specification, on real numbers:
  \<open>BIC = -2 * logL + p * log N\<close> with \<open>p = n\<^sup>2 + 2 * d * n - 1\<close>.
\<close>

definition BIC_value :: "real \<Rightarrow> int \<Rightarrow> int \<Rightarrow> nat \<Rightarrow> real" where
  "BIC_value logL n d N = - 2 * logL + real_of_int (n\<^sup>2 + 2 * d * n - 1) * ln (real N)"

text \<open>
  The score record of candidate \<open>n\<close> under BIC, if it fits and scores: the criterion on
  floats and the model.
\<close>

definition BIC_candidate ::
  "'p fitter \<Rightarrow> 'p scorer \<Rightarrow> ModelSelector \<Rightarrow> int \<Rightarrow> (pyfloat \<times> 'p pyval) option" where
  "BIC_candidate fit score s n =
     (case fitted_model fit s n of
        None \<Rightarrow> None
      | Some m \<Rightarrow>
          (case score m (self_X s) (self_lengths s) of
             Inl e \<Rightarrow> None
           | Inr logL \<Rightarrow>
               Some (fadd (fmul (Fin (- 2)) logL)
                          (fmul (Fin (of_int (n\<^sup>2 + 2 * n_features m * n - 1)))
                                (np_log (length (self_X s)))),
                     PyModel m)))"

text \<open>The scores of a model on the whole-word data of every other word, in dict order.\<close>

definition DIC_other_scores ::
  "'p scorer \<Rightarrow> 'p GaussianHMM \<Rightarrow> ModelSelector \<Rightarrow> (exn + pyfloat) list" where
  "DIC_other_scores score m s =
     map (\<lambda>(word, (X, lengths)). score m X lengths)
         (filter (\<lambda>(word, xl). word \<noteq> self_this_word s) (self_hwords s))"

text \<open>The criterion of the specification, on real numbers: own minus the mean of the others.\<close>

definition DIC_value :: "real \<Rightarrow> real list \<Rightarrow> real" where
  "DIC_value own others = own - sum_list others / real (length others)"

text \<open>
  The score record of candidate \<open>n\<close> under DIC: none if the fit, the score on any other
  word or the score on the own word fails.
\<close>

definition DIC_candidate ::
  "'p fitter \<Rightarrow> 'p scorer \<Rightarrow> ModelSelector \<Rightarrow> int \<Rightarrow> (pyfloat \<times> 'p pyval) option" where
  "DIC_candidate fit score s n =
     (case fitted_model fit s n of
        None \<Rightarrow> None
      | Some m \<Rightarrow>
          if list_ex isl (DIC_other_scores score m s) then None
          else
            (case score m (self_X s) (self_lengths s) of
               Inl e \<Rightarrow> None
             | Inr own \<Rightarrow>
                 Some (fsub own (np_mean (map projr (DIC_other_scores score m s))),
                       PyModel m)))"

subsection \<open>SelectorCV\<close>

text \<open>
  Two selector objects that agree on everything except, possibly, \<open>X\<close> and \<open>lengths\<close>.
\<close>

definition same_inputs :: "ModelSelector \<Rightarrow> ModelSelector \<Rightarrow> bool" where
  "same_inputs s s' = (s' = s\<lparr>self_X := self_X s', self_lengths := self_lengths s'\<rparr>)"

text \<open>
  The score record of candidate \<open>n\<close> on the path without folds: one fit on the whole-word
  data, one score on the same data, that score as the criterion.
\<close>

definition CV_single_candidate ::
  "'p fitter \<Rightarrow> 'p scorer \<Rightarrow> ModelSelector \<Rightarrow> int \<Rightarrow> (pyfloat \<times> 'p pyval) option" where
  "CV_single_candidate fit score s n =
     (case fitted_model fit s n of
        None \<Rightarrow> None
      | Some m \<Rightarrow>
          (case score m (self_X s) (self_lengths s) of
             Inl e \<Rightarrow> None
           | Inr logL \<Rightarrow> Some (logL, PyModel m)))"

text \<open>The selector and the locals of \<open>SelectorCV.select\<close> before its loop.\<close>

definition cv_start :: "ModelSelector \<Rightarrow> 'p cv_frame" where
  "cv_start s = \<lparr>cv_self = s, cv_likelihoods = LList [], cv_model = None, cv_scores = []\<rparr>"

section \<open>Concrete inputs\<close>

text \<open>A fitted model with \<open>n\<close> states and no further content, and a scorer that tells
  the models apart by their state count.\<close>

definition demo_model :: "int \<Rightarrow> unit GaussianHMM" where
  "demo_model n = \<lparr>n_components = n, random_state = 14, n_features = 1, fitted = ()\<rparr>"

definition demo_score :: "unit scorer" where
  "demo_score m X lengths =
     (if n_components m = 2 then Inr (Fin (- 5))
      else if n_components m = 3 then Inr (Fin (- 1))
      else if n_components m = 4 then Inr (Fin (- 1))
      else if n_components m = 5 then Inr NInf
      else Inl ScoreFailure)"

definition demo_models :: "(string \<times> unit pyval) list" where
  "demo_models =
     [(''A'', PyModel (demo_model 2)), (''B'', PyModel (demo_model 3)),
      (''C'', PyModel (demo_model 4)), (''D'', PyModel (demo_model 5)), (''E'', PyInt 3)]"

definition demo_test_set :: "(nat \<times> Xlengths) list" where
  "demo_test_set = [(0, ([[0]], [1]))]"

definition demo_low_models :: "(string \<times> unit pyval) list" where
  "demo_low_models = [(''D'', PyModel (demo_model 5)), (''E'', PyInt 3)]"

text \<open>A fitter that fails at six states, and a word with a single one-frame sequence.\<close>

definition demo_fit :: "unit fitter" where
  "demo_fit n seed X lengths = (if n = 6 then Inl FitFailure else Inr (1, ()))"

definition demo_bic_selector :: ModelSelector where
  "demo_bic_selector =
     \<lparr>self_words = [(''A'', [[[0]]])], self_hwords = [(''A'', ([[0]], [1]))],
      self_sequences = [[[0]]], self_X = [[0]], self_lengths = [1], self_this_word = ''A'',
      self_n_constant = 3, self_min_n_components = 2, self_max_n_components = 6,
      self_random_state = 14, self_verbose = False\<rparr>"

text \<open>A word whose single sequence has two frames.\<close>

definition demo_frames_selector :: ModelSelector where
  "demo_frames_selector =
     \<lparr>self_words = [(''A'', [[[0], [1]]])], self_hwords = [(''A'', ([[0], [1]], [2]))],
      self_sequences = [[[0], [1]]], self_X = [[0], [1]], self_lengths = [2],
      self_this_word = ''A'', self_n_constant = 3, self_min_n_components = 2,
      self_max_n_components = 6, self_random_state = 14, self_verbose = False\<rparr>"

text \<open>
  Three words; the scorer tells the words apart by their number of frames and fails for
  the four-state model on the third word.
\<close>

definition demo_dic_score :: "unit scorer" where
  "demo_dic_score m X lengths =
     (if length X = 1 then Inr (Fin (- 1))
      else if length X = 2 then Inr (Fin (- real_of_int (n_components m)))
      else if n_components m = 4 then Inl ScoreFailure
      else Inr (Fin (- 3)))"

definition demo_dic_selector :: ModelSelector where
  "demo_dic_selector =
     \<lparr>self_words = [(''A'', [[[0]]]), (''B'', [[[1], [1]]]), (''C'', [[[2], [2], [2]]])],
      self_hwords = [(''A'', ([[0]], [1])), (''B'', ([[1], [1]], [2])),
                     (''C'', ([[2], [2], [2]], [3]))],
      self_sequences = [[[0]]], self_X = [[0]], self_lengths = [1], self_this_word = ''A'',
      self_n_constant = 3, self_min_n_components = 2, self_max_n_components = 4,
      self_random_state = 14, self_verbose = False\<rparr>"

text \<open>
  A word with three one-frame sequences, the three folds of \<open>KFold\<close> on three samples,
  and a scorer that gives every fold of a model the same value.
\<close>

definition demo_cv_split :: splitter where
  "demo_cv_split k =
     (if k = 3 then Inr [([1, 2], [0]), ([0, 2], [1]), ([0, 1], [2])] else Inl ValueError)"

definition demo_cv_score :: "unit scorer" where
  "demo_cv_score m X lengths =
     (if n_components m = 2 then Inr (Fin (- 10))
      else if n_components m = 3 then Inr (Fin (- 4))
      else Inr (Fin (- 5)))"

definition demo_cv_selector :: ModelSelector where
  "demo_cv_selector =
     \<lparr>self_words = [(''A'', [[[0]], [[1]], [[2]]])],
      self_hwords = [(''A'', ([[0], [1], [2]], [1, 1, 1]))],
      self_sequences = [[[0]], [[1]], [[2]]], self_X = [[0], [1], [2]],
      self_lengths = [1, 1, 1], self_this_word = ''A'',
      self_n_constant = 3, self_min_n_components = 2, self_max_n_components = 4,
      self_random_state = 14, self_verbose = False\<rparr>"

text \<open>A word with two sequences, and a fitter that always fails.\<close>

definition demo_short_selector :: ModelSelector where
  "demo_short_selector =
     \<lparr>self_words = [(''A'', [[[0]], [[1]]])],
      self_hwords = [(''A'', ([[0], [1]], [1, 1]))],
      self_sequences = [[[0]], [[1]]], self_X = [[0], [1]],
      self_lengths = [1, 1], self_this_word = ''A'',
      self_n_constant = 3, self_min_n_components = 2, self_max_n_components = 4,
      self_random_state = 14, self_verbose = False\<rparr>"

definition demo_failing_fit :: "unit fitter" where
  "demo_failing_fit n seed X lengths = Inl FitFailure"

section \<open>Comparisons of floats\<close>

lemma flt_irrefl: "\<not> flt a a"
  by (cases a) simp_all

lemma flt_trans: "flt a b \<Longrightarrow> flt b c \<Longrightarrow> flt a c"
  by (cases a; cases b; cases c) simp_all

lemma not_flt_NInf: "\<not> flt a NInf"
  by (cases a) simp_all

lemma fgt_irrefl: "\<not> fgt a a"
  by (simp add: fgt_def flt_irrefl)

lemma fgt_trans: "fgt a b \<Longrightarrow> fgt b c \<Longrightarrow> fgt a c"
  unfolding fgt_def by (rule flt_trans)

lemma not_fgt_NInf: "\<not> fgt NInf a"
  by (simp add: fgt_def not_flt_NInf)

section \<open>The recognizer\<close>

lemma dict_set_fresh: "k \<notin> fst ` set d \<Longrightarrow> dict_set d k v = d @ [(k, v)]"
  by (induction d) auto

lemma recognize_models_scan:
  "distinct (map fst models) \<Longrightarrow> fst ` set models \<inter> fst ` set l0 = {} \<Longrightarrow>
   recognize_models score X lengths models (bs0, bg0, l0) =
     Inr (fst (guess_scan (recorded_likelihoods score X lengths models) (bs0, bg0)),
          snd (guess_scan (recorded_likelihoods score X lengths models) (bs0, bg0)),
          l0 @ recorded_likelihoods score X lengths models)"
proof (induction models arbitrary: bs0 bg0 l0)
  case Nil
  then show ?case by (simp add: recorded_likelihoods_def)
next
  case (Cons a models)
  obtain word model where a: "a = (word, model)" by (cases a)
  from Cons.prems have fresh: "word \<notin> fst ` set l0" and d: "distinct (map fst models)"
    and nin: "word \<notin> fst ` set models"
    by (auto simp: a)
  have disj: "\<And>v. fst ` set models \<inter> fst ` set (l0 @ [(word, v)]) = {}"
    using Cons.prems nin by (auto simp: a)
  show ?case
  proof (cases "pyval_score score model X lengths")
    case (Inl e)
    then show ?thesis
      by (simp add: Cons.IH [OF d disj] a try_except_def dict_set_fresh [OF fresh] recorded_likelihoods_def not_fgt_NInf)
  next
    case (Inr v)
    then show ?thesis
      by (simp add: Cons.IH [OF d disj] a try_except_def dict_set_fresh [OF fresh] recorded_likelihoods_def Let_def)
  qed
qed

lemma recognize_items_map:
  "distinct (map fst models) \<Longrightarrow>
   recognize_items score models items (probabilities, guesses) =
     Inr (probabilities @ map (\<lambda>(X, lengths). recorded_likelihoods score X lengths models) items,
          guesses @ map (\<lambda>(X, lengths).
             snd (guess_scan (recorded_likelihoods score X lengths models) (NInf, None))) items)"
proof (induction items arbitrary: probabilities guesses)
  case Nil
  then show ?case by simp
next
  case (Cons a items)
  obtain X lengths where a: "a = (X, lengths)" by (cases a)
  show ?case
    using Cons.prems
    by (simp add: a recognize_models_scan Cons.IH)
qed

lemma guess_scan_origin:
  "guess_scan vs (bs0, bg0) = (bs, bg) \<Longrightarrow>
   (bs = bs0 \<and> bg = bg0) \<or> (\<exists>w. bg = Some w \<and> (w, bs) \<in> set vs \<and> fgt bs bs0)"
proof (induction vs arbitrary: bs0 bg0)
  case Nil
  then show ?case by simp
next
  case (Cons a vs)
  obtain w v where a: "a = (w, v)" by (cases a)
  show ?case
  proof (cases "fgt v bs0")
    case True
    with Cons.prems have "guess_scan vs (v, Some w) = (bs, bg)" by (simp add: a)
    from Cons.IH [OF this] True show ?thesis
      by (auto simp: a intro: fgt_trans)
  next
    case False
    with Cons.prems have "guess_scan vs (bs0, bg0) = (bs, bg)" by (simp add: a)
    from Cons.IH [OF this] show ?thesis by (auto simp: a)
  qed
qed

lemma guess_scan_upper:
  "guess_scan vs (bs0, bg0) = (bs, bg) \<Longrightarrow> (w, v) \<in> set vs \<Longrightarrow> \<not> fgt v bs"
proof (induction vs arbitrary: bs0 bg0)
  case Nil
  then show ?case by simp
next
  case (Cons a vs)
  obtain w1 v1 where a: "a = (w1, v1)" by (cases a)
  let ?st = "if fgt v1 bs0 then (v1, Some w1) else (bs0, bg0)"
  from Cons.prems have run: "guess_scan vs ?st = (bs, bg)" by (simp add: a)
  show ?case
  proof (cases "(w, v) \<in> set vs")
    case True
    show ?thesis
      by (cases "fgt v1 bs0") (use run True Cons.IH in \<open>auto\<close>)
  next
    case False
    with Cons.prems have eq: "v = v1" by (simp add: a)
    show ?thesis
    proof (cases "fgt v1 bs0")
      case True
      with run have "guess_scan vs (v1, Some w1) = (bs, bg)" by simp
      from guess_scan_origin [OF this] show ?thesis
        using fgt_irrefl fgt_trans eq by blast
    next
      case False
      with run have "guess_scan vs (bs0, bg0) = (bs, bg)" by simp
      from guess_scan_origin [OF this] show ?thesis
        using False fgt_trans eq by blast
    qed
  qed
qed

lemma guess_scan_first:
  "guess_scan vs (bs0, bg0) = (bs, bg) \<Longrightarrow> fgt bs bs0 \<Longrightarrow>
   \<exists>pre w post. vs = pre @ (w, bs) # post \<and> bg = Some w \<and> (\<forall>(w', v') \<in> set pre. v' \<noteq> bs)"
proof (induction vs arbitrary: bs0 bg0)
  case Nil
  then show ?case by (simp add: fgt_irrefl)
next
  case (Cons a vs)
  obtain w1 v1 where a: "a = (w1, v1)" by (cases a)
  show ?case
  proof (cases "fgt v1 bs0")
    case True
    with Cons.prems have run: "guess_scan vs (v1, Some w1) = (bs, bg)" by (simp add: a)
    from guess_scan_origin [OF run] show ?thesis
    proof
      assume "bs = v1 \<and> bg = Some w1"
      then have "a # vs = [] @ (w1, bs) # vs \<and> bg = Some w1 \<and> (\<forall>(w', v') \<in> set []. v' \<noteq> bs)"
        by (simp add: a)
      then show ?thesis by blast
    next
      assume "\<exists>w. bg = Some w \<and> (w, bs) \<in> set vs \<and> fgt bs v1"
      then have gt: "fgt bs v1" by blast
      from Cons.IH [OF run gt] obtain pre w post where
        vs: "vs = pre @ (w, bs) # post" and bg: "bg = Some w"
        and pre: "\<forall>(w', v') \<in> set pre. v' \<noteq> bs" by blast
      from gt have "v1 \<noteq> bs" using fgt_irrefl by blast
      with vs bg pre have "a # vs = (a # pre) @ (w, bs) # post \<and> bg = Some w
          \<and> (\<forall>(w', v') \<in> set (a # pre). v' \<noteq> bs)"
        by (simp add: a)
      then show ?thesis by blast
    qed
  next
    case False
    with Cons.prems have run: "guess_scan vs (bs0, bg0) = (bs, bg)" by (simp add: a)
    from Cons.IH [OF run Cons.prems(2)] obtain pre w post where
      vs: "vs = pre @ (w, bs) # post" and bg: "bg = Some w"
      and pre: "\<forall>(w', v') \<in> set pre. v' \<noteq> bs" by blast
    from False Cons.prems(2) have "v1 \<noteq> bs" by blast
    with vs bg pre have "a # vs = (a # pre) @ (w, bs) # post \<and> bg = Some w
        \<and> (\<forall>(w', v') \<in> set (a # pre). v' \<noteq> bs)"
      by (simp add: a)
    then show ?thesis by blast
  qed
qed

lemma recognize_eq:
  "distinct (map fst models) \<Longrightarrow>
   recognize score models test_set =
     Inr (map (\<lambda>item. recorded_likelihoods score (fst (snd item)) (snd (snd item)) models) test_set,
          map (\<lambda>item. snd (guess_scan
             (recorded_likelihoods score (fst (snd item)) (snd (snd item)) models) (NInf, None))) test_set)"
  by (simp add: recognize_def recognize_items_map case_prod_beta comp_def)

lemma recorded_keys: "map fst (recorded_likelihoods score X lengths models) = map fst models"
  by (simp add: recorded_likelihoods_def case_prod_beta comp_def)

lemma recorded_lookup:
  "distinct (map fst models) \<Longrightarrow> (word, model) \<in> set models \<Longrightarrow>
   map_of (recorded_likelihoods score X lengths models) word =
     Some (case pyval_score score model X lengths of Inl e \<Rightarrow> NInf | Inr v \<Rightarrow> v)"
proof -
  assume d: "distinct (map fst models)" and m: "(word, model) \<in> set models"
  have "distinct (map fst (recorded_likelihoods score X lengths models))"
    using d by (simp add: recorded_keys)
  moreover have "(word, case pyval_score score model X lengths of Inl e \<Rightarrow> NInf | Inr v \<Rightarrow> v)
      \<in> set (recorded_likelihoods score X lengths models)"
    using m by (force simp: recorded_likelihoods_def)
  ultimately show ?thesis by simp
qed

lemma recorded_split:
  "recorded_likelihoods score X lengths models = pre' @ (w, v) # post' \<Longrightarrow>
   \<exists>pre model post. models = pre @ (w, model) # post
      \<and> pre' = recorded_likelihoods score X lengths pre"
  by (auto simp: recorded_likelihoods_def map_eq_append_conv map_eq_Cons_conv)

lemma recorded_mem:
  "(w, v) \<in> set (recorded_likelihoods score X lengths models) \<Longrightarrow>
   \<exists>model. (w, model) \<in> set models
      \<and> v = (case pyval_score score model X lengths of Inl e \<Rightarrow> NInf | Inr v \<Rightarrow> v)"
  by (auto simp: recorded_likelihoods_def)

text \<open>
  C8 (as amended). \<open>recognize\<close> never raises and returns two lists as long as the test set;
  the i-th mapping and the i-th guess are those of the scan of the i-th test item. Each
  mapping has exactly the keys of \<open>models\<close>, in their order; the entry of a word is the
  score of its model, or minus infinity where scoring raises. Hence an entry is minus
  infinity if and only if scoring raised or returned minus infinity itself.
\<close>

theorem recognize_entries:
  assumes "distinct (map fst models)"
  shows "\<exists>probabilities guesses.
     recognize score models test_set = Inr (probabilities, guesses) \<and>
     length probabilities = length test_set \<and> length guesses = length test_set \<and>
     (\<forall>i < length test_set. \<forall>X lengths. snd (test_set ! i) = (X, lengths) \<longrightarrow>
        (\<exists>best_score. recognize_models score X lengths models (NInf, None, []) =
            Inr (best_score, guesses ! i, probabilities ! i)) \<and>
        map fst (probabilities ! i) = map fst models \<and>
        (\<forall>(word, model) \<in> set models.
           map_of (probabilities ! i) word =
             Some (case pyval_score score model X lengths of Inl e \<Rightarrow> NInf | Inr v \<Rightarrow> v) \<and>
           ((map_of (probabilities ! i) word = Some NInf) =
              (isl (pyval_score score model X lengths) \<or>
               pyval_score score model X lengths = Inr NInf))))"
proof -
  let ?P = "map (\<lambda>item. recorded_likelihoods score (fst (snd item)) (snd (snd item)) models) test_set"
  let ?G = "map (\<lambda>item. snd (guess_scan
             (recorded_likelihoods score (fst (snd item)) (snd (snd item)) models) (NInf, None))) test_set"
  have eq: "recognize score models test_set = Inr (?P, ?G)"
    using assms by (rule recognize_eq)
  have item: "(\<exists>best_score. recognize_models score X lengths models (NInf, None, []) =
            Inr (best_score, ?G ! i, ?P ! i)) \<and>
        map fst (?P ! i) = map fst models \<and>
        (\<forall>(word, model) \<in> set models.
           map_of (?P ! i) word =
             Some (case pyval_score score model X lengths of Inl e \<Rightarrow> NInf | Inr v \<Rightarrow> v) \<and>
           ((map_of (?P ! i) word = Some NInf) =
              (isl (pyval_score score model X lengths) \<or>
               pyval_score score model X lengths = Inr NInf)))"
    if i: "i < length test_set" and it: "snd (test_set ! i) = (X, lengths)" for i X lengths
  proof -
    have P: "?P ! i = recorded_likelihoods score X lengths models"
      using i it by simp
    have G: "?G ! i = snd (guess_scan (recorded_likelihoods score X lengths models) (NInf, None))"
      using i it by simp
    have "recognize_models score X lengths models (NInf, None, []) =
       Inr (fst (guess_scan (recorded_likelihoods score X lengths models) (NInf, None)), ?G ! i, ?P ! i)"
      unfolding P G using assms by (simp add: recognize_models_scan)
    moreover have "map fst (?P ! i) = map fst models"
      unfolding P by (rule recorded_keys)
    moreover have "map_of (?P ! i) word =
             Some (case pyval_score score model X lengths of Inl e \<Rightarrow> NInf | Inr v \<Rightarrow> v) \<and>
           ((map_of (?P ! i) word = Some NInf) =
              (isl (pyval_score score model X lengths) \<or>
               pyval_score score model X lengths = Inr NInf))"
      if "(word, model) \<in> set models" for word model
      unfolding P recorded_lookup [OF assms that]
      by (cases "pyval_score score model X lengths") simp_all
    ultimately show ?thesis by blast
  qed
  show ?thesis
    unfolding eq using item by (intro exI [of _ ?P] exI [of _ ?G]) simp
qed

lemma recognize_item:
  assumes "distinct (map fst models)"
    and "recognize score models test_set = Inr (probabilities, guesses)"
    and "i < length test_set" and "snd (test_set ! i) = (X, lengths)"
  shows "probabilities ! i = recorded_likelihoods score X lengths models"
    and "guesses ! i = snd (guess_scan (recorded_likelihoods score X lengths models) (NInf, None))"
  using assms(2-4) unfolding recognize_eq [OF assms(1)] by auto

text \<open>
  C9. For each test item: a guess \<open>w\<close> is a word of \<open>models\<close> whose recorded likelihood is
  above minus infinity, no recorded likelihood is greater, and no word before \<open>w\<close> in the
  scan records the same value (the first seen wins a tie); a guess is made as soon as some
  recorded likelihood is above minus infinity; and if every model fails, the guess is
  \<open>None\<close> and every recorded likelihood is minus infinity.
\<close>

theorem recognize_best_guess:
  assumes "distinct (map fst models)"
    and "recognize score models test_set = Inr (probabilities, guesses)"
    and "i < length test_set" and "snd (test_set ! i) = (X, lengths)"
  shows "(\<forall>w. guesses ! i = Some w \<longrightarrow>
            (\<exists>pre model post v. models = pre @ (w, model) # post \<and>
               map_of (probabilities ! i) w = Some v \<and> fgt v NInf \<and>
               (\<forall>(w', v') \<in> set (probabilities ! i). \<not> fgt v' v) \<and>
               (\<forall>(w', m') \<in> set pre. map_of (probabilities ! i) w' \<noteq> Some v))) \<and>
         ((\<exists>(w', v') \<in> set (probabilities ! i). fgt v' NInf) \<longrightarrow> guesses ! i \<noteq> None) \<and>
         ((\<forall>(w, model) \<in> set models. isl (pyval_score score model X lengths)) \<longrightarrow>
            guesses ! i = None \<and> (\<forall>(w', v') \<in> set (probabilities ! i). v' = NInf))"
proof -
  let ?vs = "recorded_likelihoods score X lengths models"
  note P = recognize_item(1) [OF assms] and G = recognize_item(2) [OF assms]
  obtain bs bg where run: "guess_scan ?vs (NInf, None) = (bs, bg)"
    by (cases "guess_scan ?vs (NInf, None)")
  have bg: "guesses ! i = bg" using G run by simp
  have dvs: "distinct (map fst ?vs)" using assms(1) by (simp add: recorded_keys)
  have upper: "\<forall>(w', v') \<in> set ?vs. \<not> fgt v' bs"
    using guess_scan_upper [OF run] by blast
  have part1: "\<exists>pre model post v. models = pre @ (w, model) # post \<and>
               map_of ?vs w = Some v \<and> fgt v NInf \<and>
               (\<forall>(w', v') \<in> set ?vs. \<not> fgt v' v) \<and>
               (\<forall>(w', m') \<in> set pre. map_of ?vs w' \<noteq> Some v)"
    if w: "bg = Some w" for w
  proof -
    from guess_scan_origin [OF run] w have gt: "fgt bs NInf" by auto
    from guess_scan_first [OF run gt] w obtain pre' post' where
      vs: "?vs = pre' @ (w, bs) # post'" and pre': "\<forall>(w', v') \<in> set pre'. v' \<noteq> bs"
      by auto
    from recorded_split [OF vs] obtain pre model post where
      models: "models = pre @ (w, model) # post"
      and pre: "pre' = recorded_likelihoods score X lengths pre" by blast
    have look: "map_of ?vs w = Some bs"
      using dvs vs by (metis in_set_conv_decomp map_of_is_SomeI)
    have "map_of ?vs w' \<noteq> Some bs" if m: "(w', m') \<in> set pre" for w' m'
    proof -
      let ?v' = "case pyval_score score m' X lengths of Inl e \<Rightarrow> NInf | Inr v \<Rightarrow> v"
      have "(w', ?v') \<in> set pre'"
        using m unfolding pre by (force simp: recorded_likelihoods_def)
      then have "?v' \<noteq> bs" and "(w', ?v') \<in> set ?vs"
        using pre' vs by auto
      then show ?thesis
        using dvs by (metis map_of_is_SomeI option.inject)
    qed
    then have "\<forall>(w', m') \<in> set pre. map_of ?vs w' \<noteq> Some bs" by auto
    with models look gt upper show ?thesis by (intro exI [of _ pre] exI [of _ model] exI [of _ post] exI [of _ bs]) simp
  qed
  have part2: "bg \<noteq> None" if ex: "\<exists>(w', v') \<in> set ?vs. fgt v' NInf"
  proof
    assume "bg = None"
    with guess_scan_origin [OF run] have "bs = NInf" by auto
    with upper ex show False by auto
  qed
  have part3: "bg = None \<and> (\<forall>(w', v') \<in> set ?vs. v' = NInf)"
    if fail: "\<forall>(w, model) \<in> set models. isl (pyval_score score model X lengths)"
  proof -
    have all: "\<forall>(w', v') \<in> set ?vs. v' = NInf"
    proof (clarify)
      fix w' v' assume "(w', v') \<in> set ?vs"
      from recorded_mem [OF this] obtain model where
        "(w', model) \<in> set models"
        and v': "v' = (case pyval_score score model X lengths of Inl e \<Rightarrow> NInf | Inr v \<Rightarrow> v)"
        by blast
      then have "isl (pyval_score score model X lengths)" using fail by auto
      with v' show "v' = NInf" by (cases "pyval_score score model X lengths") simp_all
    qed
    have "bg = None"
    proof (cases bg)
      case (Some w)
      from guess_scan_origin [OF run] Some have "(w, bs) \<in> set ?vs" and "fgt bs NInf" by auto
      then have "fgt NInf NInf" using all by auto
      then show ?thesis by (simp add: fgt_irrefl)
    qed simp
    with all show ?thesis by simp
  qed
  show ?thesis
    unfolding P bg
  proof (intro conjI allI impI)
    fix w assume "bg = Some w"
    then show "\<exists>pre model post v. models = pre @ (w, model) # post \<and>
               map_of ?vs w = Some v \<and> fgt v NInf \<and>
               (\<forall>(w', v') \<in> set ?vs. \<not> fgt v' v) \<and>
               (\<forall>(w', m') \<in> set pre. map_of ?vs w' \<noteq> Some v)"
      by (rule part1)
  next
    assume "\<exists>(w', v') \<in> set ?vs. fgt v' NInf"
    then show "bg \<noteq> None" by (rule part2)
  next
    assume "\<forall>(w, model) \<in> set models. isl (pyval_score score model X lengths)"
    then show "bg = None" using part3 by simp
  next
    assume "\<forall>(w, model) \<in> set models. isl (pyval_score score model X lengths)"
    then show "\<forall>(w', v') \<in> set ?vs. v' = NInf" using part3 by simp
  qed
qed

lemma guess_scan_Some:
  assumes "guess_scan vs (NInf, None) = (bs, Some w)" and "distinct (map fst vs)"
  shows "map_of vs w = Some bs \<and> fgt bs NInf"
proof -
  from guess_scan_origin [OF assms(1)] have "(w, bs) \<in> set vs" and "fgt bs NInf" by auto
  with assms(2) show ?thesis by simp
qed

text \<open>
  C10. The recorded likelihood of a guessed word is strictly above minus infinity; a model
  whose scoring succeeds with exactly minus infinity is never the guess; and the guess is
  \<open>None\<close> whenever no model scores strictly above minus infinity.
\<close>

theorem recognize_guess_above_neg_inf:
  assumes "distinct (map fst models)"
    and "recognize score models test_set = Inr (probabilities, guesses)"
    and "i < length test_set" and "snd (test_set ! i) = (X, lengths)"
  shows "(\<forall>w. guesses ! i = Some w \<longrightarrow>
            (\<exists>v. map_of (probabilities ! i) w = Some v \<and> fgt v NInf)) \<and>
         (\<forall>w model. (w, model) \<in> set models \<and> pyval_score score model X lengths = Inr NInf \<longrightarrow>
            guesses ! i \<noteq> Some w) \<and>
         ((\<forall>(w, model) \<in> set models. \<forall>v. pyval_score score model X lengths = Inr v \<longrightarrow>
              \<not> fgt v NInf) \<longrightarrow> guesses ! i = None)"
proof -
  let ?vs = "recorded_likelihoods score X lengths models"
  note P = recognize_item(1) [OF assms] and G = recognize_item(2) [OF assms]
  obtain bs bg where run: "guess_scan ?vs (NInf, None) = (bs, bg)"
    by (cases "guess_scan ?vs (NInf, None)")
  have bg: "guesses ! i = bg" using G run by simp
  have dvs: "distinct (map fst ?vs)" using assms(1) by (simp add: recorded_keys)
  have some: "map_of ?vs w = Some bs \<and> fgt bs NInf" if "bg = Some w" for w
    using guess_scan_Some [OF _ dvs] run that by simp
  have part2: "bg \<noteq> Some w"
    if m: "(w, model) \<in> set models" and sc: "pyval_score score model X lengths = Inr NInf"
    for w model
  proof
    assume "bg = Some w"
    from some [OF this] have "map_of ?vs w = Some bs" and gt: "fgt bs NInf" by simp_all
    moreover have "map_of ?vs w = Some NInf"
      using recorded_lookup [OF assms(1) m, of score X lengths] sc by simp
    ultimately have "bs = NInf" by simp
    with gt show False by (simp add: fgt_irrefl)
  qed
  have part3: "bg = None"
    if low: "\<forall>(w, model) \<in> set models. \<forall>v. pyval_score score model X lengths = Inr v \<longrightarrow>
              \<not> fgt v NInf"
  proof (cases bg)
    case (Some w)
    from guess_scan_origin [OF run] Some have mem: "(w, bs) \<in> set ?vs" and gt: "fgt bs NInf"
      by auto
    from recorded_mem [OF mem] obtain model where m: "(w, model) \<in> set models"
      and bs: "bs = (case pyval_score score model X lengths of Inl e \<Rightarrow> NInf | Inr v \<Rightarrow> v)"
      by blast
    show ?thesis
    proof (cases "pyval_score score model X lengths")
      case (Inl e)
      with bs gt show ?thesis by (simp add: fgt_irrefl)
    next
      case (Inr v)
      with m low have "\<not> fgt v NInf" by auto
      with bs gt Inr show ?thesis by simp
    qed
  qed simp
  show ?thesis
    unfolding P bg
  proof (intro conjI allI impI)
    fix w assume "bg = Some w"
    from some [OF this] show "\<exists>v. map_of ?vs w = Some v \<and> fgt v NInf" by blast
  next
    fix w model
    assume "(w, model) \<in> set models \<and> pyval_score score model X lengths = Inr NInf"
    then show "bg \<noteq> Some w" using part2 by blast
  next
    assume "\<forall>(w, model) \<in> set models. \<forall>v. pyval_score score model X lengths = Inr v \<longrightarrow>
              \<not> fgt v NInf"
    then show "bg = None" by (rule part3)
  qed
qed

lemma demo_recognize:
  "recognize demo_score demo_models demo_test_set =
     Inr ([[(''A'', Fin (- 5)), (''B'', Fin (- 1)), (''C'', Fin (- 1)), (''D'', NInf),
            (''E'', NInf)]], [Some ''B''])"
  by (simp add: recognize_def demo_score_def demo_models_def demo_test_set_def demo_model_def
      try_except_def fgt_def)

lemma demo_low_recognize:
  "recognize demo_score demo_low_models demo_test_set =
     Inr ([[(''D'', NInf), (''E'', NInf)]], [None])"
  by (simp add: recognize_def demo_score_def demo_low_models_def demo_test_set_def demo_model_def
      try_except_def fgt_def)

theorem recognize_entries_witness:
  "distinct (map fst demo_models) \<and>
   (\<exists>probabilities guesses.
      recognize demo_score demo_models demo_test_set = Inr (probabilities, guesses) \<and>
      length probabilities = 1 \<and> length guesses = 1 \<and>
      map fst (probabilities ! 0) = [''A'', ''B'', ''C'', ''D'', ''E''] \<and>
      map_of (probabilities ! 0) ''A'' = Some (Fin (- 5)) \<and>
      map_of (probabilities ! 0) ''D'' = Some NInf \<and>
      map_of (probabilities ! 0) ''E'' = Some NInf)"
proof -
  have d: "distinct (map fst demo_models)" by (simp add: demo_models_def)
  from recognize_entries [OF d, of demo_score demo_test_set] obtain probabilities guesses where
    r: "recognize demo_score demo_models demo_test_set = Inr (probabilities, guesses)"
    and l: "length probabilities = length demo_test_set" "length guesses = length demo_test_set"
    and k: "map fst (probabilities ! 0) = map fst demo_models"
    by (auto simp: demo_test_set_def)
  from r have "probabilities ! 0 = [(''A'', Fin (- 5)), (''B'', Fin (- 1)), (''C'', Fin (- 1)),
      (''D'', NInf), (''E'', NInf)]"
    by (auto simp: demo_recognize)
  with d r l k show ?thesis by (simp add: demo_test_set_def demo_models_def)
qed

text \<open>
  C8 as stated fails: the entry of \<open>D\<close> is minus infinity although scoring \<open>D\<close> did not
  fail (it returned minus infinity).
\<close>

theorem recognize_neg_inf_counterexample:
  "recognize demo_score [(''D'', PyModel (demo_model 5))] demo_test_set =
     Inr ([[(''D'', NInf)]], [None]) \<and>
   pyval_score demo_score (PyModel (demo_model 5)) [[0]] [1] = Inr NInf \<and>
   \<not> isl (pyval_score demo_score (PyModel (demo_model 5)) [[0]] [1])"
  by (simp add: recognize_def demo_score_def demo_test_set_def demo_model_def
      try_except_def fgt_def)

theorem recognize_best_guess_witness:
  "distinct (map fst demo_models) \<and>
   recognize demo_score demo_models demo_test_set =
     Inr ([[(''A'', Fin (- 5)), (''B'', Fin (- 1)), (''C'', Fin (- 1)), (''D'', NInf),
            (''E'', NInf)]], [Some ''B'']) \<and>
   (\<exists>pre model post.
      demo_models = pre @ (''B'', model) # post \<and> fgt (Fin (- 1)) NInf \<and>
      \<not> fgt (Fin (- 1)) (Fin (- 1)))"
proof -
  let ?P = "[[(''A'', Fin (- 5)), (''B'', Fin (- 1)), (''C'', Fin (- 1)), (''D'', NInf),
            (''E'', NInf)]]"
  have d: "distinct (map fst demo_models)" by (simp add: demo_models_def)
  have i: "(0::nat) < length demo_test_set" by (simp add: demo_test_set_def)
  have it: "snd (demo_test_set ! 0) = ([[0]], [1])" by (simp add: demo_test_set_def)
  from recognize_best_guess [OF d demo_recognize i it]
  obtain pre model post v where m: "demo_models = pre @ (''B'', model) # post"
    and v: "map_of (?P ! 0) ''B'' = Some v" and gt: "fgt v NInf"
    and up: "\<forall>(w', v') \<in> set (?P ! 0). \<not> fgt v' v"
    by auto
  from v have v1: "v = Fin (- 1)" by simp
  from up v1 have "\<not> fgt (Fin (- 1)) (Fin (- 1))" by simp
  with m gt v1 d demo_recognize show ?thesis by blast
qed

theorem recognize_guess_above_neg_inf_witness:
  "distinct (map fst demo_low_models) \<and>
   recognize demo_score demo_low_models demo_test_set =
     Inr ([[(''D'', NInf), (''E'', NInf)]], [None]) \<and>
   pyval_score demo_score (PyModel (demo_model 5)) [[0]] [1] = Inr NInf \<and>
   [Some ''D''] ! 0 \<noteq> [None :: string option] ! 0"
proof -
  have d: "distinct (map fst demo_low_models)" by (simp add: demo_low_models_def)
  have i: "(0::nat) < length demo_test_set" by (simp add: demo_test_set_def)
  have it: "snd (demo_test_set ! 0) = ([[0]], [1])" by (simp add: demo_test_set_def)
  have sc: "pyval_score demo_score (PyModel (demo_model 5)) [[0]] [1] = Inr NInf"
    by (simp add: demo_score_def demo_model_def)
  from recognize_guess_above_neg_inf [OF d demo_low_recognize i it]
  have "[None :: string option] ! 0 \<noteq> Some ''D''"
    using sc by (auto simp: demo_low_models_def)
  with d demo_low_recognize sc show ?thesis by simp
qed

section \<open>The selectors\<close>

subsection \<open>min and max by key\<close>

lemma flt_total: "a \<noteq> NaN \<Longrightarrow> b \<noteq> NaN \<Longrightarrow> flt a b \<or> a = b \<or> flt b a"
  by (cases a; cases b) auto

lemma min_scan_mono: "min_scan b xs = b \<or> flt (fst (min_scan b xs)) (fst b)"
proof (induction xs arbitrary: b)
  case Nil
  then show ?case by simp
next
  case (Cons x xs)
  show ?case
  proof (cases "flt (fst x) (fst b)")
    case True
    with Cons.IH [of x] show ?thesis by (auto intro: flt_trans)
  next
    case False
    with Cons.IH [of b] show ?thesis by simp
  qed
qed

lemma min_scan_mem: "min_scan b xs \<in> set (b # xs)"
  by (induction xs arbitrary: b) (auto split: if_splits)

lemma min_scan_least: "x \<in> set (b # xs) \<Longrightarrow> \<not> flt (fst x) (fst (min_scan b xs))"
proof (induction xs arbitrary: b)
  case Nil
  then show ?case by (simp add: flt_irrefl)
next
  case (Cons y ys)
  show ?case
  proof (cases "flt (fst y) (fst b)")
    case True
    then have step: "min_scan b (y # ys) = min_scan y ys" by simp
    show ?thesis
    proof (cases "x \<in> set (y # ys)")
      case True
      from Cons.IH [OF this] show ?thesis unfolding step .
    next
      case False
      with Cons.prems have xb: "x = b" by simp
      from min_scan_mono [of y ys] \<open>flt (fst y) (fst b)\<close>
      have "\<not> flt (fst b) (fst (min_scan y ys))"
        using flt_irrefl flt_trans by metis
      then show ?thesis unfolding step xb .
    qed
  next
    case False
    then have step: "min_scan b (y # ys) = min_scan b ys" by simp
    show ?thesis
    proof (cases "x \<in> set (b # ys)")
      case True
      from Cons.IH [OF this] show ?thesis unfolding step .
    next
      case nin: False
      with Cons.prems have xy: "x = y" by simp
      from min_scan_mono [of b ys] False
      have "\<not> flt (fst y) (fst (min_scan b ys))"
        using flt_trans by metis
      then show ?thesis unfolding step xy .
    qed
  qed
qed

lemma max_scan_mono: "max_scan b xs = b \<or> fgt (fst (max_scan b xs)) (fst b)"
proof (induction xs arbitrary: b)
  case Nil
  then show ?case by simp
next
  case (Cons x xs)
  show ?case
  proof (cases "fgt (fst x) (fst b)")
    case True
    with Cons.IH [of x] show ?thesis by (auto intro: fgt_trans)
  next
    case False
    with Cons.IH [of b] show ?thesis by simp
  qed
qed

lemma max_scan_mem: "max_scan b xs \<in> set (b # xs)"
  by (induction xs arbitrary: b) (auto split: if_splits)

lemma max_scan_greatest: "x \<in> set (b # xs) \<Longrightarrow> \<not> fgt (fst x) (fst (max_scan b xs))"
proof (induction xs arbitrary: b)
  case Nil
  then show ?case by (simp add: fgt_irrefl)
next
  case (Cons y ys)
  show ?case
  proof (cases "fgt (fst y) (fst b)")
    case True
    then have step: "max_scan b (y # ys) = max_scan y ys" by simp
    show ?thesis
    proof (cases "x \<in> set (y # ys)")
      case True
      from Cons.IH [OF this] show ?thesis unfolding step .
    next
      case False
      with Cons.prems have xb: "x = b" by simp
      from max_scan_mono [of y ys] \<open>fgt (fst y) (fst b)\<close>
      have "\<not> fgt (fst b) (fst (max_scan y ys))"
        using fgt_irrefl fgt_trans by metis
      then show ?thesis unfolding step xb .
    qed
  next
    case False
    then have step: "max_scan b (y # ys) = max_scan b ys" by simp
    show ?thesis
    proof (cases "x \<in> set (b # ys)")
      case True
      from Cons.IH [OF this] show ?thesis unfolding step .
    next
      case nin: False
      with Cons.prems have xy: "x = y" by simp
      from max_scan_mono [of b ys] False
      have "\<not> fgt (fst y) (fst (max_scan b ys))"
        using fgt_trans by metis
      then show ?thesis unfolding step xy .
    qed
  qed
qed

subsection \<open>SelectorBIC\<close>

lemma base_model_Inr:
  "base_model fit s n =
     Inr (case fitted_model fit s n of None \<Rightarrow> PyNone | Some m \<Rightarrow> PyModel m)"
  by (simp add: base_model_def GaussianHMM_fit_def try_except_def fitted_model_def
      split: sum.splits prod.splits)

lemma BIC_trial_candidate:
  "(case SelectorBIC_trial fit score s n of Inl e \<Rightarrow> None | Inr r \<Rightarrow> Some r) =
     BIC_candidate fit score s n"
  by (simp add: SelectorBIC_trial_def BIC_candidate_def base_model_Inr Let_def
      split: option.splits sum.splits)

lemma SelectorBIC_loop_eq:
  "SelectorBIC_loop fit score s ns scores =
     Inr (scores @ List.map_filter (BIC_candidate fit score s) ns)"
proof (induction ns arbitrary: scores)
  case Nil
  then show ?case by (simp add: List.map_filter_simps)
next
  case (Cons n ns)
  show ?case
    by (cases "SelectorBIC_trial fit score s n")
       (simp_all add: try_except_def Cons.IH List.map_filter_simps
          BIC_trial_candidate [symmetric])
qed

lemma fitted_demo [simp]:
  "fitted_model demo_fit s n = (if n = 6 then None else Some ((demo_model n)\<lparr>random_state := self_random_state s\<rparr>))"
  by (simp add: fitted_model_def demo_fit_def demo_model_def)

lemma demo_bic_candidates:
  "List.map_filter (BIC_candidate demo_fit demo_score demo_bic_selector) [2..6] =
     [(Fin 10, PyModel (demo_model 2)), (Fin 2, PyModel (demo_model 3)),
      (Fin 2, PyModel (demo_model 4)), (PInf, PyModel (demo_model 5))]"
  by (simp add: List.map_filter_simps BIC_candidate_def demo_score_def demo_model_def
      demo_bic_selector_def np_log_def inf_times_def upto_rec1)

lemma fitted_model_states: "fitted_model fit s n = Some m \<Longrightarrow> n_components m = n"
  by (auto simp: fitted_model_def split: sum.splits)

lemma BIC_candidate_model:
  "BIC_candidate fit score s n = Some r \<Longrightarrow>
   \<exists>m. snd r = PyModel m \<and> fitted_model fit s n = Some m"
  by (auto simp: BIC_candidate_def split: option.splits sum.splits)

text \<open>
  C5. The loop of \<open>SelectorBIC\<close> leaves in \<open>scores\<close> exactly the records of the candidates
  \<open>n\<close> of the range that fit and score, in ascending order of \<open>n\<close>, each with the value
  \<open>-2 * logL + p * log N\<close>, where \<open>logL\<close> is the model's score on the whole-word data it
  was fitted on, \<open>N\<close> the number of frames of that data and \<open>p = n\<^sup>2 + 2 * d * n - 1\<close> with
  \<open>d\<close> the model's feature dimensionality (on finite values this is the real number
  \<open>BIC_value\<close>). When there is such a candidate, \<open>select\<close> returns the model of one of
  them, and no candidate has a smaller value.
\<close>

theorem SelectorBIC_selects_minimum:
  "SelectorBIC_loop fit score s (candidate_range s) [] =
     Inr (List.map_filter (BIC_candidate fit score s)
            [self_min_n_components s .. self_max_n_components s]) \<and>
   (\<forall>n m L. fitted_model fit s n = Some m \<and>
        score m (self_X s) (self_lengths s) = Inr (Fin L) \<and> self_X s \<noteq> [] \<longrightarrow>
        BIC_candidate fit score s n =
          Some (Fin (BIC_value L n (n_features m) (length (self_X s))), PyModel m)) \<and>
   (List.map_filter (BIC_candidate fit score s)
       [self_min_n_components s .. self_max_n_components s] \<noteq> [] \<longrightarrow>
    (\<exists>c m. (c, PyModel m) \<in> set (List.map_filter (BIC_candidate fit score s)
                [self_min_n_components s .. self_max_n_components s]) \<and>
       SelectorBIC_select fit score s = Inr (PyModel m) \<and>
       (\<forall>(c', v') \<in> set (List.map_filter (BIC_candidate fit score s)
                [self_min_n_components s .. self_max_n_components s]).
           \<not> flt c' c \<and> (c' \<noteq> NaN \<and> c \<noteq> NaN \<longrightarrow> c = c' \<or> flt c c'))))"
proof (intro conjI allI impI)
  let ?cands = "List.map_filter (BIC_candidate fit score s)
            [self_min_n_components s .. self_max_n_components s]"
  show loop: "SelectorBIC_loop fit score s (candidate_range s) [] = Inr ?cands"
    by (simp add: SelectorBIC_loop_eq candidate_range_def)
  {
    fix n m L
    assume "fitted_model fit s n = Some m \<and>
        score m (self_X s) (self_lengths s) = Inr (Fin L) \<and> self_X s \<noteq> []"
    then show "BIC_candidate fit score s n =
          Some (Fin (BIC_value L n (n_features m) (length (self_X s))), PyModel m)"
      by (simp add: BIC_candidate_def BIC_value_def np_log_def)
  }
  assume ne: "?cands \<noteq> []"
  then obtain x xs where cons: "?cands = x # xs" by (cases ?cands) auto
  let ?r = "min_scan x xs"
  have sel: "SelectorBIC_select fit score s = Inr (snd ?r)"
    by (simp add: SelectorBIC_select_def SelectorBIC_loop_eq candidate_range_def cons)
  have mem: "?r \<in> set ?cands" unfolding cons by (rule min_scan_mem)
  then obtain n where "BIC_candidate fit score s n = Some ?r"
    by (auto simp: List.map_filter_def)
  from BIC_candidate_model [OF this] obtain m where m: "snd ?r = PyModel m"
    by blast
  have least: "\<not> flt (fst y) (fst ?r)" if "y \<in> set ?cands" for y
    using that min_scan_least [of y x xs] unfolding cons by simp
  have "\<forall>(c', v') \<in> set ?cands.
           \<not> flt c' (fst ?r) \<and> (c' \<noteq> NaN \<and> fst ?r \<noteq> NaN \<longrightarrow> fst ?r = c' \<or> flt (fst ?r) c')"
    using least flt_total by fastforce
  moreover have "(fst ?r, PyModel m) \<in> set ?cands"
    using mem m by (metis prod.collapse)
  ultimately show "\<exists>c m. (c, PyModel m) \<in> set ?cands \<and>
       SelectorBIC_select fit score s = Inr (PyModel m) \<and>
       (\<forall>(c', v') \<in> set ?cands.
           \<not> flt c' c \<and> (c' \<noteq> NaN \<and> c \<noteq> NaN \<longrightarrow> c = c' \<or> flt c c'))"
    using sel m by (intro exI [of _ "fst ?r"] exI [of _ m]) simp
qed

theorem SelectorBIC_selects_minimum_witness:
  "List.map_filter (BIC_candidate demo_fit demo_score demo_bic_selector) [2..6] \<noteq> [] \<and>
   BIC_candidate demo_fit demo_score demo_bic_selector 3 = Some (Fin 2, PyModel (demo_model 3)) \<and>
   SelectorBIC_select demo_fit demo_score demo_bic_selector = Inr (PyModel (demo_model 3)) \<and>
   (\<exists>c m. (c, PyModel m) \<in> set (List.map_filter
                (BIC_candidate demo_fit demo_score demo_bic_selector) [2..6]) \<and>
      SelectorBIC_select demo_fit demo_score demo_bic_selector = Inr (PyModel m) \<and>
      \<not> flt (Fin 10) c \<and> \<not> flt PInf c) \<and>
   length (self_X demo_frames_selector) = 2 \<and> length (self_lengths demo_frames_selector) = 1 \<and>
   BIC_candidate demo_fit demo_score demo_frames_selector 2 =
     Some (Fin (10 + 7 * ln 2), PyModel (demo_model 2))"
proof -
  have "fitted_model demo_fit demo_frames_selector 2 = Some (demo_model 2) \<and>
      demo_score (demo_model 2) (self_X demo_frames_selector) (self_lengths demo_frames_selector) =
        Inr (Fin (- 5)) \<and> self_X demo_frames_selector \<noteq> []"
    by (simp add: demo_model_def demo_frames_selector_def demo_score_def)
  with SelectorBIC_selects_minimum [of demo_fit demo_score demo_frames_selector]
  have "BIC_candidate demo_fit demo_score demo_frames_selector 2 =
      Some (Fin (BIC_value (- 5) 2 (n_features (demo_model 2))
        (length (self_X demo_frames_selector))), PyModel (demo_model 2))"
    by blast
  then have frames: "BIC_candidate demo_fit demo_score demo_frames_selector 2 =
     Some (Fin (10 + 7 * ln 2), PyModel (demo_model 2))"
    by (simp add: BIC_value_def demo_model_def demo_frames_selector_def)
  have lens: "length (self_X demo_frames_selector) = 2"
    "length (self_lengths demo_frames_selector) = 1"
    by (simp_all add: demo_frames_selector_def)
  let ?cands = "List.map_filter (BIC_candidate demo_fit demo_score demo_bic_selector) [2..6]"
  have range: "[self_min_n_components demo_bic_selector .. self_max_n_components demo_bic_selector]
      = [2..6]"
    by (simp add: demo_bic_selector_def)
  have ne: "?cands \<noteq> []" unfolding demo_bic_candidates by simp
  note T = SelectorBIC_selects_minimum [of demo_fit demo_score demo_bic_selector,
      unfolded range]
  from T have loop: "SelectorBIC_loop demo_fit demo_score demo_bic_selector
      (candidate_range demo_bic_selector) [] = Inr ?cands"
    by (rule conjunct1)
  from T [THEN conjunct2, THEN conjunct2, rule_format, OF ne] obtain c m where
    mem: "(c, PyModel m) \<in> set ?cands"
    and sel: "SelectorBIC_select demo_fit demo_score demo_bic_selector = Inr (PyModel m)"
    and least: "\<forall>(c', v') \<in> set ?cands. \<not> flt c' c"
    by blast
  from least have l1: "\<not> flt (Fin 10) c" and l2: "\<not> flt PInf c"
    unfolding demo_bic_candidates by simp_all
  have sel3: "SelectorBIC_select demo_fit demo_score demo_bic_selector =
      Inr (PyModel (demo_model 3))"
    using loop unfolding demo_bic_candidates SelectorBIC_select_def by simp
  have c3: "BIC_candidate demo_fit demo_score demo_bic_selector 3 =
      Some (Fin 2, PyModel (demo_model 3))"
    by (simp add: BIC_candidate_def demo_score_def demo_model_def
      demo_bic_selector_def np_log_def)
  from ne c3 sel3 mem sel l1 l2 frames lens show ?thesis by blast
qed

subsection \<open>SelectorDIC\<close>

lemma foldl_fadd_Fin: "foldl fadd (Fin a) (map Fin rs) = Fin (a + sum_list rs)"
  by (induction rs arbitrary: a) (simp_all add: add.assoc)

lemma np_mean_Fin: "rs \<noteq> [] \<Longrightarrow> np_mean (map Fin rs) = Fin (sum_list rs / real (length rs))"
  by (simp add: np_mean_def foldl_fadd_Fin)

lemma SelectorDIC_others_Inr:
  "\<not> list_ex isl (map (\<lambda>(word, (X, lengths)). score m X lengths)
         (filter (\<lambda>(word, xl). word \<noteq> tw) hw)) \<Longrightarrow>
   SelectorDIC_others score (PyModel m) tw hw acc =
     Inr (acc @ map projr (map (\<lambda>(word, (X, lengths)). score m X lengths)
         (filter (\<lambda>(word, xl). word \<noteq> tw) hw)))"
proof (induction hw arbitrary: acc)
  case Nil
  then show ?case by simp
next
  case (Cons a hw)
  obtain word X lengths where a: "a = (word, (X, lengths))" by (cases a) auto
  show ?case
  proof (cases "word \<noteq> tw")
    case True
    with Cons.prems obtain v where v: "score m X lengths = Inr v"
      by (cases "score m X lengths") (auto simp: a)
    from Cons.prems True have "\<not> list_ex isl (map (\<lambda>(word, (X, lengths)). score m X lengths)
         (filter (\<lambda>(word, xl). word \<noteq> tw) hw))"
      by (simp add: a)
    from Cons.IH [OF this] True v show ?thesis by (simp add: a)
  next
    case False
    with Cons.prems have "\<not> list_ex isl (map (\<lambda>(word, (X, lengths)). score m X lengths)
         (filter (\<lambda>(word, xl). word \<noteq> tw) hw))"
      by (simp add: a)
    from Cons.IH [OF this] False show ?thesis by (simp add: a)
  qed
qed

lemma SelectorDIC_others_Inl:
  "list_ex isl (map (\<lambda>(word, (X, lengths)). score m X lengths)
         (filter (\<lambda>(word, xl). word \<noteq> tw) hw)) \<Longrightarrow>
   isl (SelectorDIC_others score (PyModel m) tw hw acc)"
proof (induction hw arbitrary: acc)
  case Nil
  then show ?case by simp
next
  case (Cons a hw)
  obtain word X lengths where a: "a = (word, (X, lengths))" by (cases a) auto
  show ?case
  proof (cases "word \<noteq> tw")
    case True
    show ?thesis
    proof (cases "score m X lengths")
      case (Inl e)
      with True show ?thesis by (simp add: a)
    next
      case (Inr v)
      with Cons.prems True have "list_ex isl (map (\<lambda>(word, (X, lengths)). score m X lengths)
         (filter (\<lambda>(word, xl). word \<noteq> tw) hw))"
        by (simp add: a)
      from Cons.IH [OF this] True Inr show ?thesis by (simp add: a)
    qed
  next
    case False
    with Cons.prems have "list_ex isl (map (\<lambda>(word, (X, lengths)). score m X lengths)
         (filter (\<lambda>(word, xl). word \<noteq> tw) hw))"
      by (simp add: a)
    from Cons.IH [OF this] False show ?thesis by (simp add: a)
  qed
qed

lemma SelectorDIC_trial_None:
  "fitted_model fit s n = None \<Longrightarrow> isl (SelectorDIC_trial fit score s n)"
  by (simp add: SelectorDIC_trial_def base_model_Inr split: sum.splits)

lemma DIC_trial_candidate:
  "(case SelectorDIC_trial fit score s n of Inl e \<Rightarrow> None | Inr r \<Rightarrow> Some r) =
     DIC_candidate fit score s n"
proof (cases "fitted_model fit s n")
  case None
  with SelectorDIC_trial_None [OF None, of score] show ?thesis
    by (cases "SelectorDIC_trial fit score s n") (simp_all add: DIC_candidate_def)
next
  case (Some m)
  show ?thesis
  proof (cases "list_ex isl (DIC_other_scores score m s)")
    case True
    then have "isl (SelectorDIC_others score (PyModel m) (self_this_word s) (self_hwords s) [])"
      unfolding DIC_other_scores_def by (rule SelectorDIC_others_Inl)
    with Some True show ?thesis
      by (cases "SelectorDIC_others score (PyModel m) (self_this_word s) (self_hwords s) []")
         (simp_all add: SelectorDIC_trial_def base_model_Inr DIC_candidate_def)
  next
    case False
    then have "SelectorDIC_others score (PyModel m) (self_this_word s) (self_hwords s) [] =
        Inr ([] @ map projr (DIC_other_scores score m s))"
      unfolding DIC_other_scores_def by (rule SelectorDIC_others_Inr)
    with Some False show ?thesis
      by (simp add: SelectorDIC_trial_def base_model_Inr DIC_candidate_def split: sum.splits)
  qed
qed

lemma SelectorDIC_loop_eq:
  "SelectorDIC_loop fit score s ns scores =
     Inr (scores @ List.map_filter (DIC_candidate fit score s) ns)"
proof (induction ns arbitrary: scores)
  case Nil
  then show ?case by (simp add: List.map_filter_simps)
next
  case (Cons n ns)
  show ?case
    by (cases "SelectorDIC_trial fit score s n")
       (simp_all add: try_except_def Cons.IH List.map_filter_simps
          DIC_trial_candidate [symmetric])
qed

lemma DIC_candidate_model:
  "DIC_candidate fit score s n = Some r \<Longrightarrow>
   \<exists>m. snd r = PyModel m \<and> fitted_model fit s n = Some m"
  by (auto simp: DIC_candidate_def split: option.splits sum.splits if_splits)

lemma demo_dic_candidates:
  "List.map_filter (DIC_candidate demo_fit demo_dic_score demo_dic_selector) [2..4] =
     [(Fin (3 / 2), PyModel (demo_model 2)), (Fin 2, PyModel (demo_model 3))]"
  by (simp add: List.map_filter_simps DIC_candidate_def DIC_other_scores_def demo_dic_score_def
      demo_model_def demo_dic_selector_def np_mean_def fsub_def upto_rec1)

text \<open>
  C6. The loop of \<open>SelectorDIC\<close> leaves in \<open>scores\<close> exactly the records of the candidates
  that complete, each with the model's score on the own word minus the mean of its scores
  on the whole-word data of every other word (on finite values, the real number
  \<open>DIC_value\<close>). A failure of the score on a single other word makes the whole trial of
  that \<open>n\<close> fail, so that \<open>n\<close> has no record. When some candidate completes, \<open>select\<close>
  returns the model of one of them, and no candidate has a greater value.
\<close>

theorem SelectorDIC_selects_maximum:
  "SelectorDIC_loop fit score s (candidate_range s) [] =
     Inr (List.map_filter (DIC_candidate fit score s)
            [self_min_n_components s .. self_max_n_components s]) \<and>
   (\<forall>n m own others. fitted_model fit s n = Some m \<and>
        DIC_other_scores score m s = map (\<lambda>r. Inr (Fin r)) others \<and> others \<noteq> [] \<and>
        score m (self_X s) (self_lengths s) = Inr (Fin own) \<longrightarrow>
        DIC_candidate fit score s n = Some (Fin (DIC_value own others), PyModel m)) \<and>
   (\<forall>n m word X' lengths' e. fitted_model fit s n = Some m \<and>
        (word, (X', lengths')) \<in> set (self_hwords s) \<and> word \<noteq> self_this_word s \<and>
        score m X' lengths' = Inl e \<longrightarrow>
        isl (SelectorDIC_trial fit score s n) \<and> DIC_candidate fit score s n = None) \<and>
   (List.map_filter (DIC_candidate fit score s)
       [self_min_n_components s .. self_max_n_components s] \<noteq> [] \<longrightarrow>
    (\<exists>c m. (c, PyModel m) \<in> set (List.map_filter (DIC_candidate fit score s)
                [self_min_n_components s .. self_max_n_components s]) \<and>
       SelectorDIC_select fit score s = Inr (PyModel m) \<and>
       (\<forall>(c', v') \<in> set (List.map_filter (DIC_candidate fit score s)
                [self_min_n_components s .. self_max_n_components s]).
           \<not> fgt c' c \<and> (c' \<noteq> NaN \<and> c \<noteq> NaN \<longrightarrow> c = c' \<or> fgt c c'))))"
proof (intro conjI allI impI)
  let ?cands = "List.map_filter (DIC_candidate fit score s)
            [self_min_n_components s .. self_max_n_components s]"
  show loop: "SelectorDIC_loop fit score s (candidate_range s) [] = Inr ?cands"
    by (simp add: SelectorDIC_loop_eq candidate_range_def)
  {
    fix n m own others
    assume a: "fitted_model fit s n = Some m \<and>
        DIC_other_scores score m s = map (\<lambda>r. Inr (Fin r)) others \<and> others \<noteq> [] \<and>
        score m (self_X s) (self_lengths s) = Inr (Fin own)"
    then have fm: "fitted_model fit s n = Some m"
      and os: "DIC_other_scores score m s = map (\<lambda>r. Inr (Fin r)) others"
      and ne: "others \<noteq> []"
      and own: "score m (self_X s) (self_lengths s) = Inr (Fin own)"
      by simp_all
    have nofail: "\<not> list_ex isl (DIC_other_scores score m s)"
      unfolding os by (simp add: list_ex_iff)
    have pr: "map projr (DIC_other_scores score m s) = map Fin others"
      unfolding os by (simp add: comp_def)
    have mean: "np_mean (map projr (DIC_other_scores score m s)) =
        Fin (sum_list others / real (length others))"
      unfolding pr using ne by (rule np_mean_Fin)
    show "DIC_candidate fit score s n = Some (Fin (DIC_value own others), PyModel m)"
      using fm nofail own mean by (simp add: DIC_candidate_def fsub_def DIC_value_def)
  }
  {
    fix n m word X' lengths' e
    assume a: "fitted_model fit s n = Some m \<and>
        (word, (X', lengths')) \<in> set (self_hwords s) \<and> word \<noteq> self_this_word s \<and>
        score m X' lengths' = Inl e"
    then have "Inl e \<in> set (DIC_other_scores score m s)"
      unfolding DIC_other_scores_def by force
    then have ex: "list_ex isl (DIC_other_scores score m s)"
      unfolding list_ex_iff by force
    with a show none: "DIC_candidate fit score s n = None"
      by (simp add: DIC_candidate_def)
    with DIC_trial_candidate [of fit score s n]
    show "isl (SelectorDIC_trial fit score s n)"
      by (cases "SelectorDIC_trial fit score s n") simp_all
  }
  assume ne: "?cands \<noteq> []"
  then obtain x xs where cons: "?cands = x # xs" by (cases ?cands) auto
  let ?r = "max_scan x xs"
  have sel: "SelectorDIC_select fit score s = Inr (snd ?r)"
    by (simp add: SelectorDIC_select_def SelectorDIC_loop_eq candidate_range_def cons)
  have mem: "?r \<in> set ?cands" unfolding cons by (rule max_scan_mem)
  then obtain n where "DIC_candidate fit score s n = Some ?r"
    by (auto simp: List.map_filter_def)
  from DIC_candidate_model [OF this] obtain m where m: "snd ?r = PyModel m"
    by blast
  have greatest: "\<not> fgt (fst y) (fst ?r)" if "y \<in> set ?cands" for y
    using that max_scan_greatest [of y x xs] unfolding cons by simp
  have "\<forall>(c', v') \<in> set ?cands.
           \<not> fgt c' (fst ?r) \<and> (c' \<noteq> NaN \<and> fst ?r \<noteq> NaN \<longrightarrow> fst ?r = c' \<or> fgt (fst ?r) c')"
    using greatest flt_total unfolding fgt_def by fastforce
  moreover have "(fst ?r, PyModel m) \<in> set ?cands"
    using mem m by (metis prod.collapse)
  ultimately show "\<exists>c m. (c, PyModel m) \<in> set ?cands \<and>
       SelectorDIC_select fit score s = Inr (PyModel m) \<and>
       (\<forall>(c', v') \<in> set ?cands.
           \<not> fgt c' c \<and> (c' \<noteq> NaN \<and> c \<noteq> NaN \<longrightarrow> c = c' \<or> fgt c c'))"
    using sel m by (intro exI [of _ "fst ?r"] exI [of _ m]) simp
qed

theorem SelectorDIC_selects_maximum_witness:
  "List.map_filter (DIC_candidate demo_fit demo_dic_score demo_dic_selector) [2..4] \<noteq> [] \<and>
   (''C'', ([[2], [2], [2]], [3])) \<in> set (self_hwords demo_dic_selector) \<and>
   demo_dic_score (demo_model 4) [[2], [2], [2]] [3] = Inl ScoreFailure \<and>
   DIC_candidate demo_fit demo_dic_score demo_dic_selector 4 = None \<and>
   SelectorDIC_select demo_fit demo_dic_score demo_dic_selector = Inr (PyModel (demo_model 3)) \<and>
   (\<exists>c m. (c, PyModel m) \<in> set (List.map_filter
                (DIC_candidate demo_fit demo_dic_score demo_dic_selector) [2..4]) \<and>
      SelectorDIC_select demo_fit demo_dic_score demo_dic_selector = Inr (PyModel m) \<and>
      \<not> fgt (Fin (3 / 2)) c)"
proof -
  let ?cands = "List.map_filter (DIC_candidate demo_fit demo_dic_score demo_dic_selector) [2..4]"
  have range: "[self_min_n_components demo_dic_selector .. self_max_n_components demo_dic_selector]
      = [2..4]"
    by (simp add: demo_dic_selector_def)
  have ne: "?cands \<noteq> []" unfolding demo_dic_candidates by simp
  note T = SelectorDIC_selects_maximum [of demo_fit demo_dic_score demo_dic_selector,
      unfolded range]
  from T have loop: "SelectorDIC_loop demo_fit demo_dic_score demo_dic_selector
      (candidate_range demo_dic_selector) [] = Inr ?cands"
    by (rule conjunct1)
  have f4: "fitted_model demo_fit demo_dic_selector 4 = Some (demo_model 4)"
    by (simp add: demo_model_def demo_dic_selector_def)
  have hw: "(''C'', ([[2], [2], [2]], [3])) \<in> set (self_hwords demo_dic_selector)"
    and tw: "''C'' \<noteq> self_this_word demo_dic_selector"
    by (simp_all add: demo_dic_selector_def)
  have fail: "demo_dic_score (demo_model 4) [[2], [2], [2]] [3] = Inl ScoreFailure"
    by (simp add: demo_dic_score_def demo_model_def)
  from T [THEN conjunct2, THEN conjunct2, THEN conjunct1, rule_format,
      of 4 "demo_model 4" "''C''" "[[2], [2], [2]]" "[3]" ScoreFailure] f4 hw tw fail
  have none: "DIC_candidate demo_fit demo_dic_score demo_dic_selector 4 = None"
    by blast
  from T [THEN conjunct2, THEN conjunct2, THEN conjunct2, rule_format, OF ne] obtain c m where
    mem: "(c, PyModel m) \<in> set ?cands"
    and sel: "SelectorDIC_select demo_fit demo_dic_score demo_dic_selector = Inr (PyModel m)"
    and greatest: "\<forall>(c', v') \<in> set ?cands. \<not> fgt c' c"
    by blast
  from greatest have g1: "\<not> fgt (Fin (3 / 2)) c"
    unfolding demo_dic_candidates by simp
  have sel3: "SelectorDIC_select demo_fit demo_dic_score demo_dic_selector =
      Inr (PyModel (demo_model 3))"
    using loop unfolding demo_dic_candidates SelectorDIC_select_def by (simp add: fgt_def)
  from ne hw fail none sel3 mem sel g1 show ?thesis by blast
qed

subsection \<open>SelectorCV\<close>

lemma same_inputs_refl: "same_inputs s s"
  by (simp add: same_inputs_def)

lemma same_inputs_trans: "same_inputs s s' \<Longrightarrow> same_inputs s' s'' \<Longrightarrow> same_inputs s s''"
  unfolding same_inputs_def by (cases s; cases s'; cases s'') simp

lemma same_inputs_update: "same_inputs s (s\<lparr>self_X := X', self_lengths := l'\<rparr>)"
  by (simp add: same_inputs_def)

lemma pyval_score_Inr: "pyval_score score v X lengths = Inr x \<Longrightarrow> \<exists>m. v = PyModel m"
  by (cases v) simp_all

lemma base_model_PyModel:
  "base_model fit s n = Inr (PyModel m) \<Longrightarrow> fitted_model fit s n = Some m"
  by (simp add: base_model_Inr split: option.splits)

lemma SelectorCV_fold_scores:
  "SelectorCV_fold fit score n indices fr = (r, fr') \<Longrightarrow> cv_scores fr' = cv_scores fr"
  by (auto simp: SelectorCV_fold_def Let_def split: prod.splits sum.splits)

lemma SelectorCV_fold_inputs:
  "SelectorCV_fold fit score n indices fr = (r, fr') \<Longrightarrow>
   same_inputs (cv_self fr) (cv_self fr')"
  by (auto simp: SelectorCV_fold_def Let_def same_inputs_refl same_inputs_update
      split: prod.splits sum.splits)

lemma SelectorCV_fold_model:
  "SelectorCV_fold fit score n indices fr = (Inr u, fr') \<Longrightarrow>
   \<exists>m. cv_model fr' = Some (PyModel m) \<and> n_components m = n"
  by (auto simp: SelectorCV_fold_def Let_def split: prod.splits sum.splits
      dest!: pyval_score_Inr base_model_PyModel fitted_model_states)

lemma SelectorCV_fold_X:
  "SelectorCV_fold fit score n indices fr = (r, fr') \<Longrightarrow>
   (self_X (cv_self fr') = self_X (cv_self fr) \<and>
    self_lengths (cv_self fr') = self_lengths (cv_self fr)) \<or>
   combine_sequences (fst indices) (self_sequences (cv_self fr)) =
     Inr (self_X (cv_self fr'), self_lengths (cv_self fr'))"
  by (auto simp: SelectorCV_fold_def Let_def split: prod.splits sum.splits)


lemma same_inputs_sequences: "same_inputs s s' \<Longrightarrow> self_sequences s' = self_sequences s"
  unfolding same_inputs_def by (cases s; cases s') simp

lemma SelectorCV_folds_scores:
  "SelectorCV_folds fit score n folds fr = (r, fr') \<Longrightarrow> cv_scores fr' = cv_scores fr"
proof (induction folds arbitrary: fr)
  case Nil
  then show ?case by simp
next
  case (Cons indices folds)
  obtain r1 fr1 where f: "SelectorCV_fold fit score n indices fr = (r1, fr1)"
    by (cases "SelectorCV_fold fit score n indices fr")
  note s1 = SelectorCV_fold_scores [OF f]
  show ?case
  proof (cases r1)
    case (Inl e)
    with Cons.prems f s1 show ?thesis by simp
  next
    case (Inr u)
    with Cons.prems f have "SelectorCV_folds fit score n folds fr1 = (r, fr')" by simp
    from Cons.IH [OF this] s1 show ?thesis by simp
  qed
qed

lemma SelectorCV_folds_inputs:
  "SelectorCV_folds fit score n folds fr = (r, fr') \<Longrightarrow>
   same_inputs (cv_self fr) (cv_self fr')"
proof (induction folds arbitrary: fr)
  case Nil
  then show ?case by (simp add: same_inputs_refl)
next
  case (Cons indices folds)
  obtain r1 fr1 where f: "SelectorCV_fold fit score n indices fr = (r1, fr1)"
    by (cases "SelectorCV_fold fit score n indices fr")
  note s1 = SelectorCV_fold_inputs [OF f]
  show ?case
  proof (cases r1)
    case (Inl e)
    with Cons.prems f s1 show ?thesis by simp
  next
    case (Inr u)
    with Cons.prems f have "SelectorCV_folds fit score n folds fr1 = (r, fr')" by simp
    from Cons.IH [OF this] s1 show ?thesis by (rule same_inputs_trans [rotated])
  qed
qed

lemma SelectorCV_folds_model:
  "SelectorCV_folds fit score n folds fr = (Inr u, fr') \<Longrightarrow> folds \<noteq> [] \<Longrightarrow>
   \<exists>m. cv_model fr' = Some (PyModel m) \<and> n_components m = n"
proof (induction folds arbitrary: fr)
  case Nil
  then show ?case by simp
next
  case (Cons indices folds)
  obtain r1 fr1 where f: "SelectorCV_fold fit score n indices fr = (r1, fr1)"
    by (cases "SelectorCV_fold fit score n indices fr")
  show ?case
  proof (cases r1)
    case (Inl e)
    with Cons.prems f show ?thesis by simp
  next
    case (Inr u1)
    with Cons.prems f have run: "SelectorCV_folds fit score n folds fr1 = (Inr u, fr')" by simp
    show ?thesis
    proof (cases folds)
      case Nil
      with run have "fr' = fr1" by simp
      with SelectorCV_fold_model [of fit score n indices fr u1 fr1] f Inr show ?thesis by simp
    next
      case (Cons a list)
      then have "folds \<noteq> []" by simp
      from Cons.IH [OF run this] show ?thesis .
    qed
  qed
qed

lemma SelectorCV_folds_X:
  "SelectorCV_folds fit score n folds fr = (r, fr') \<Longrightarrow>
   (self_X (cv_self fr') = self_X (cv_self fr) \<and>
    self_lengths (cv_self fr') = self_lengths (cv_self fr)) \<or>
   (\<exists>indices \<in> set folds.
      combine_sequences (fst indices) (self_sequences (cv_self fr)) =
        Inr (self_X (cv_self fr'), self_lengths (cv_self fr')))"
proof (induction folds arbitrary: fr)
  case Nil
  then show ?case by simp
next
  case (Cons indices folds)
  obtain r1 fr1 where f: "SelectorCV_fold fit score n indices fr = (r1, fr1)"
    by (cases "SelectorCV_fold fit score n indices fr")
  note x1 = SelectorCV_fold_X [OF f]
  have seq: "self_sequences (cv_self fr1) = self_sequences (cv_self fr)"
    using SelectorCV_fold_inputs [OF f] by (rule same_inputs_sequences)
  show ?case
  proof (cases r1)
    case (Inl e)
    with Cons.prems f have "fr' = fr1" by simp
    with x1 show ?thesis by auto
  next
    case (Inr u)
    with Cons.prems f have "SelectorCV_folds fit score n folds fr1 = (r, fr')" by simp
    from Cons.IH [OF this] x1 show ?thesis unfolding seq by auto
  qed
qed


text \<open>The ways one trial of \<open>SelectorCV\<close> can go.\<close>

lemma SelectorCV_trial_cases:
  assumes "SelectorCV_trial split fit score n fr = (r, fr')"
  obtains (folds) folds r1 where "length (self_sequences (cv_self fr)) > 2"
      and "split (length (self_sequences (cv_self fr))) = Inr folds"
      and "SelectorCV_folds fit score n folds fr = (r1, fr')" and "isl r1" and "isl r"
    | (folds_ok) folds u fr1 model where "length (self_sequences (cv_self fr)) > 2"
      and "split (length (self_sequences (cv_self fr))) = Inr folds"
      and "SelectorCV_folds fit score n folds fr = (Inr u, fr1)"
      and "cv_model fr1 = Some model"
      and "fr' = fr1\<lparr>cv_scores := cv_scores fr1 @ [(np_mean_lik (cv_likelihoods fr1), model)]\<rparr>"
      and "r = Inr ()"
    | (folds_unbound) folds u where "length (self_sequences (cv_self fr)) > 2"
      and "split (length (self_sequences (cv_self fr))) = Inr folds"
      and "SelectorCV_folds fit score n folds fr = (Inr u, fr')"
      and "cv_model fr' = None" and "isl r"
    | (split_fails) e where "length (self_sequences (cv_self fr)) > 2"
      and "split (length (self_sequences (cv_self fr))) = Inl e" and "fr' = fr" and "isl r"
    | (single_fails) "length (self_sequences (cv_self fr)) \<le> 2"
      and "CV_single_candidate fit score (cv_self fr) n = None"
      and "cv_self fr' = cv_self fr" and "cv_scores fr' = cv_scores fr" and "isl r"
    | (single_ok) v m where "length (self_sequences (cv_self fr)) \<le> 2"
      and "CV_single_candidate fit score (cv_self fr) n = Some (v, PyModel m)"
      and "cv_self fr' = cv_self fr" and "cv_scores fr' = cv_scores fr @ [(v, PyModel m)]"
      and "r = Inr ()"
proof (cases "length (self_sequences (cv_self fr)) > 2")
  case long: True
  show ?thesis
  proof (cases "split (length (self_sequences (cv_self fr)))")
    case (Inl e)
    with assms long have "fr' = fr" and "isl r"
      by (auto simp: SelectorCV_trial_def)
    with long Inl show ?thesis by (rule split_fails)
  next
    case (Inr fs)
    obtain r1 fr1 where run: "SelectorCV_folds fit score n fs fr = (r1, fr1)"
      by (cases "SelectorCV_folds fit score n fs fr")
    show ?thesis
    proof (cases r1)
      case (Inl e)
      with assms long Inr run have "fr' = fr1" and "isl r"
        by (auto simp: SelectorCV_trial_def)
      with long Inr run Inl show ?thesis by (intro folds [of fs r1]) simp_all
    next
      case r1: (Inr u)
      show ?thesis
      proof (cases "cv_model fr1")
        case None
        with assms long Inr run r1 have "fr' = fr1" and "isl r"
          by (auto simp: SelectorCV_trial_def)
        with long Inr run r1 None show ?thesis by (intro folds_unbound [of fs u]) simp_all
      next
        case (Some model)
        with assms long Inr run r1 have
          "fr' = fr1\<lparr>cv_scores := cv_scores fr1 @ [(np_mean_lik (cv_likelihoods fr1), model)]\<rparr>"
          and "r = Inr ()"
          by (auto simp: SelectorCV_trial_def)
        with long Inr run r1 Some show ?thesis by (intro folds_ok [of fs u fr1 model]) simp_all
      qed
    qed
  qed
next
  case False
  then have short: "length (self_sequences (cv_self fr)) \<le> 2" by simp
  show ?thesis
  proof (cases "CV_single_candidate fit score (cv_self fr) n")
    case None
    with assms False have "cv_self fr' = cv_self fr" and "cv_scores fr' = cv_scores fr" and "isl r"
      by (auto simp: SelectorCV_trial_def CV_single_candidate_def base_model_Inr Let_def
          split: option.splits sum.splits)
    with short None show ?thesis by (rule single_fails)
  next
    case (Some c)
    then obtain v m where c: "c = (v, PyModel m)"
      by (auto simp: CV_single_candidate_def split: option.splits sum.splits)
    from assms False Some have "cv_self fr' = cv_self fr"
      and "cv_scores fr' = cv_scores fr @ [(v, PyModel m)]" and "r = Inr ()"
      by (auto simp: SelectorCV_trial_def CV_single_candidate_def base_model_Inr Let_def c
          split: option.splits sum.splits)
    with short Some c show ?thesis by (intro single_ok [of v m]) simp_all
  qed
qed


lemma SelectorCV_trial_failure:
  assumes "SelectorCV_trial split fit score n fr = (Inl e, fr')"
  shows "cv_scores fr' = cv_scores fr"
  using assms
proof (cases rule: SelectorCV_trial_cases)
  case (folds folds r1)
  then show ?thesis by (simp add: SelectorCV_folds_scores)
next
  case (folds_unbound folds u)
  then show ?thesis by (simp add: SelectorCV_folds_scores)
qed simp_all

lemma SelectorCV_trial_inputs:
  assumes "SelectorCV_trial split fit score n fr = (r, fr')"
  shows "same_inputs (cv_self fr) (cv_self fr')"
  using assms
proof (cases rule: SelectorCV_trial_cases)
  case (folds folds r1)
  then show ?thesis by (simp add: SelectorCV_folds_inputs)
next
  case (folds_ok folds u fr1 model)
  then show ?thesis using SelectorCV_folds_inputs [of fit score n folds fr "Inr u" fr1] by simp
next
  case (folds_unbound folds u)
  then show ?thesis by (simp add: SelectorCV_folds_inputs)
qed (simp_all add: same_inputs_refl)

lemma SelectorCV_trial_success:
  assumes "SelectorCV_trial split fit score n fr = (Inr u, fr')"
    and "\<And>k. split k \<noteq> Inr []"
  shows "\<exists>c m. cv_scores fr' = cv_scores fr @ [(c, PyModel m)] \<and> n_components m = n"
  using assms(1)
proof (cases rule: SelectorCV_trial_cases)
  case (folds_ok folds u1 fr1 model)
  from folds_ok(2) assms(2) have ne: "folds \<noteq> []" by metis
  from SelectorCV_folds_model [OF folds_ok(3) ne] folds_ok(4)
  obtain m where "model = PyModel m" and "n_components m = n" by auto
  moreover have "cv_scores fr1 = cv_scores fr"
    using folds_ok(3) by (rule SelectorCV_folds_scores)
  ultimately show ?thesis using folds_ok(5) by simp
next
  case (single_ok v m)
  then have "fitted_model fit (cv_self fr) n = Some m"
    by (auto simp: CV_single_candidate_def split: option.splits sum.splits)
  then have "n_components m = n" by (rule fitted_model_states)
  with single_ok show ?thesis by simp
qed simp_all

lemma SelectorCV_trial_X:
  assumes "SelectorCV_trial split fit score n fr = (r, fr')"
  shows "(self_X (cv_self fr') = self_X (cv_self fr) \<and>
          self_lengths (cv_self fr') = self_lengths (cv_self fr)) \<or>
         (length (self_sequences (cv_self fr)) > 2 \<and>
          (\<exists>folds. split (length (self_sequences (cv_self fr))) = Inr folds \<and>
             (\<exists>indices \<in> set folds.
                combine_sequences (fst indices) (self_sequences (cv_self fr)) =
                  Inr (self_X (cv_self fr'), self_lengths (cv_self fr')))))"
  using assms
proof (cases rule: SelectorCV_trial_cases)
  case (folds folds r1)
  with SelectorCV_folds_X [OF folds(3)] show ?thesis by auto
next
  case (folds_ok folds u fr1 model)
  with SelectorCV_folds_X [OF folds_ok(3)] show ?thesis by auto
next
  case (folds_unbound folds u)
  with SelectorCV_folds_X [OF folds_unbound(3)] show ?thesis by auto
qed simp_all

lemma SelectorCV_loop_Inr: "fst (SelectorCV_loop split fit score ns fr) = Inr ()"
proof (induction ns arbitrary: fr)
  case Nil
  then show ?case by simp
next
  case (Cons n ns)
  obtain r fr1 where "SelectorCV_trial split fit score n fr = (r, fr1)"
    by (cases "SelectorCV_trial split fit score n fr")
  then show ?case using Cons.IH [of fr1] by (cases r) simp_all
qed

lemma SelectorCV_loop_step:
  "SelectorCV_trial split fit score n fr = (r, fr1) \<Longrightarrow>
   SelectorCV_loop split fit score (n # ns) fr = SelectorCV_loop split fit score ns fr1"
  by (cases r) simp_all

lemma SelectorCV_loop_inputs:
  "same_inputs (cv_self fr) (cv_self (snd (SelectorCV_loop split fit score ns fr)))"
proof (induction ns arbitrary: fr)
  case Nil
  then show ?case by (simp add: same_inputs_refl)
next
  case (Cons n ns)
  obtain r fr1 where t: "SelectorCV_trial split fit score n fr = (r, fr1)"
    by (cases "SelectorCV_trial split fit score n fr")
  from SelectorCV_trial_inputs [OF t] Cons.IH [of fr1]
  show ?case unfolding SelectorCV_loop_step [OF t] by (rule same_inputs_trans)
qed

lemma SelectorCV_loop_X:
  "(self_X (cv_self (snd (SelectorCV_loop split fit score ns fr))) = self_X (cv_self fr) \<and>
    self_lengths (cv_self (snd (SelectorCV_loop split fit score ns fr))) =
      self_lengths (cv_self fr)) \<or>
   (length (self_sequences (cv_self fr)) > 2 \<and>
    (\<exists>folds. split (length (self_sequences (cv_self fr))) = Inr folds \<and>
       (\<exists>indices \<in> set folds.
          combine_sequences (fst indices) (self_sequences (cv_self fr)) =
            Inr (self_X (cv_self (snd (SelectorCV_loop split fit score ns fr))),
                 self_lengths (cv_self (snd (SelectorCV_loop split fit score ns fr)))))))"
proof (induction ns arbitrary: fr)
  case Nil
  then show ?case by simp
next
  case (Cons n ns)
  obtain r fr1 where t: "SelectorCV_trial split fit score n fr = (r, fr1)"
    by (cases "SelectorCV_trial split fit score n fr")
  have seq: "self_sequences (cv_self fr1) = self_sequences (cv_self fr)"
    using SelectorCV_trial_inputs [OF t] by (rule same_inputs_sequences)
  note T = SelectorCV_trial_X [OF t]
  define L where "L = cv_self (snd (SelectorCV_loop split fit score ns fr1))"
  have IH: "(self_X L = self_X (cv_self fr1) \<and> self_lengths L = self_lengths (cv_self fr1)) \<or>
      (length (self_sequences (cv_self fr)) > 2 \<and>
       (\<exists>folds. split (length (self_sequences (cv_self fr))) = Inr folds \<and>
          (\<exists>indices \<in> set folds.
             combine_sequences (fst indices) (self_sequences (cv_self fr)) =
               Inr (self_X L, self_lengths L))))"
    using Cons.IH [of fr1] unfolding seq L_def .
  then have "(self_X L = self_X (cv_self fr) \<and> self_lengths L = self_lengths (cv_self fr)) \<or>
      (length (self_sequences (cv_self fr)) > 2 \<and>
       (\<exists>folds. split (length (self_sequences (cv_self fr))) = Inr folds \<and>
          (\<exists>indices \<in> set folds.
             combine_sequences (fst indices) (self_sequences (cv_self fr)) =
               Inr (self_X L, self_lengths L))))"
  proof
    assume "self_X L = self_X (cv_self fr1) \<and> self_lengths L = self_lengths (cv_self fr1)"
    with T show ?thesis by simp
  next
    assume "length (self_sequences (cv_self fr)) > 2 \<and>
       (\<exists>folds. split (length (self_sequences (cv_self fr))) = Inr folds \<and>
          (\<exists>indices \<in> set folds.
             combine_sequences (fst indices) (self_sequences (cv_self fr)) =
               Inr (self_X L, self_lengths L)))"
    then show ?thesis by (rule disjI2)
  qed
  then show ?case unfolding SelectorCV_loop_step [OF t] L_def .
qed

lemma SelectorCV_loop_small:
  "length (self_sequences (cv_self fr)) \<le> 2 \<Longrightarrow>
   cv_self (snd (SelectorCV_loop split fit score ns fr)) = cv_self fr \<and>
   cv_scores (snd (SelectorCV_loop split fit score ns fr)) =
     cv_scores fr @ List.map_filter (CV_single_candidate fit score (cv_self fr)) ns"
proof (induction ns arbitrary: fr)
  case Nil
  then show ?case by (simp add: List.map_filter_simps)
next
  case (Cons n ns)
  obtain r fr1 where t: "SelectorCV_trial split fit score n fr = (r, fr1)"
    by (cases "SelectorCV_trial split fit score n fr")
  from t Cons.prems have self1: "cv_self fr1 = cv_self fr"
    and sc1: "cv_scores fr1 = cv_scores fr @
       (case CV_single_candidate fit score (cv_self fr) n of None \<Rightarrow> [] | Some c \<Rightarrow> [c])"
    by (cases rule: SelectorCV_trial_cases; simp)+
  from Cons.prems self1 have "length (self_sequences (cv_self fr1)) \<le> 2" by simp
  from Cons.IH [OF this] show ?case
    unfolding SelectorCV_loop_step [OF t] self1 sc1
    by (simp add: List.map_filter_simps split: option.splits)
qed

lemma SelectorCV_loop_models:
  assumes "\<And>k. split k \<noteq> Inr []"
    and "\<forall>(c, v) \<in> set (cv_scores fr). \<exists>m. v = PyModel m \<and> n_components m \<in> S"
    and "set ns \<subseteq> S"
  shows "\<forall>(c, v) \<in> set (cv_scores (snd (SelectorCV_loop split fit score ns fr))).
           \<exists>m. v = PyModel m \<and> n_components m \<in> S"
  using assms(2,3)
proof (induction ns arbitrary: fr)
  case Nil
  then show ?case by simp
next
  case (Cons n ns)
  obtain r fr1 where t: "SelectorCV_trial split fit score n fr = (r, fr1)"
    by (cases "SelectorCV_trial split fit score n fr")
  have "\<forall>(c, v) \<in> set (cv_scores fr1). \<exists>m. v = PyModel m \<and> n_components m \<in> S"
  proof (cases r)
    case (Inl e)
    with t SelectorCV_trial_failure [of split fit score n fr e fr1] Cons.prems(1)
    show ?thesis by simp
  next
    case (Inr u)
    with t SelectorCV_trial_success [of split fit score n fr u fr1] assms(1)
    obtain c m where "cv_scores fr1 = cv_scores fr @ [(c, PyModel m)]" and "n_components m = n"
      by blast
    with Cons.prems show ?thesis by auto
  qed
  moreover from Cons.prems(2) have "set ns \<subseteq> S" by simp
  ultimately show ?case
    unfolding SelectorCV_loop_step [OF t] by (rule Cons.IH)
qed

lemma SelectorCV_select_start:
  "SelectorCV_select split fit score s =
     (let fr = snd (SelectorCV_loop split fit score (candidate_range s) (cv_start s)) in
      (if cv_scores fr \<noteq> [] then
         (case py_max (cv_scores fr) of Inl e \<Rightarrow> Inl e | Inr maximum \<Rightarrow> Inr (snd maximum))
       else Inr (PyInt (self_n_constant (cv_self fr))), cv_self fr))"
proof -
  obtain r fr where l: "SelectorCV_loop split fit score (candidate_range s) (cv_start s) = (r, fr)"
    by (cases "SelectorCV_loop split fit score (candidate_range s) (cv_start s)")
  with SelectorCV_loop_Inr [of split fit score "candidate_range s" "cv_start s"]
  have "r = Inr ()" by simp
  with l show ?thesis
    by (simp add: SelectorCV_select_def cv_start_def [symmetric])
qed

lemma CV_single_candidate_model:
  "CV_single_candidate fit score s n = Some r \<Longrightarrow>
   \<exists>m. snd r = PyModel m \<and> fitted_model fit s n = Some m"
  by (auto simp: CV_single_candidate_def split: option.splits sum.splits)

lemma ModelSelector_init_whole_word:
  "ModelSelector_init all_word_sequences all_word_Xlengths this_word
     n_constant min_n_components max_n_components seed verbose = Inr s \<Longrightarrow>
   map_of (self_hwords s) (self_this_word s) = Some (self_X s, self_lengths s) \<and>
   map_of (self_words s) (self_this_word s) = Some (self_sequences s)"
  by (auto simp: ModelSelector_init_def split: option.splits)

text \<open>
  C7. For a selector built by \<open>__init__\<close> for a word with at most two sequences,
  \<open>SelectorCV\<close> performs no folding: whatever the splitter, the records in \<open>scores\<close>
  are exactly those of the candidates whose single fit on the whole-word data and single
  score on that same data succeed, each with that one score as its criterion value; the
  selector object is unchanged, and when there is such a candidate \<open>select\<close> returns the
  model of one that no other exceeds.
\<close>

theorem SelectorCV_short_word_single_fit:
  assumes "ModelSelector_init all_word_sequences all_word_Xlengths this_word
     n_constant min_n_components max_n_components seed verbose = Inr s"
    and "length (self_sequences s) \<le> 2"
  shows "map_of (self_hwords s) (self_this_word s) = Some (self_X s, self_lengths s) \<and>
     cv_scores (snd (SelectorCV_loop split fit score (candidate_range s) (cv_start s))) =
       List.map_filter (CV_single_candidate fit score s)
         [self_min_n_components s .. self_max_n_components s] \<and>
     snd (SelectorCV_select split fit score s) = s \<and>
     (\<forall>split'. SelectorCV_select split' fit score s = SelectorCV_select split fit score s) \<and>
     (List.map_filter (CV_single_candidate fit score s)
         [self_min_n_components s .. self_max_n_components s] \<noteq> [] \<longrightarrow>
      (\<exists>c m. (c, PyModel m) \<in> set (List.map_filter (CV_single_candidate fit score s)
                  [self_min_n_components s .. self_max_n_components s]) \<and>
         fst (SelectorCV_select split fit score s) = Inr (PyModel m) \<and>
         (\<forall>(c', v') \<in> set (List.map_filter (CV_single_candidate fit score s)
                  [self_min_n_components s .. self_max_n_components s]).
            \<not> fgt c' c)))"
proof -
  let ?cands = "List.map_filter (CV_single_candidate fit score s)
         [self_min_n_components s .. self_max_n_components s]"
  have short: "length (self_sequences (cv_self (cv_start s))) \<le> 2"
    using assms(2) by (simp add: cv_start_def)
  have loop: "cv_self (snd (SelectorCV_loop sp fit score (candidate_range s) (cv_start s))) = s"
    "cv_scores (snd (SelectorCV_loop sp fit score (candidate_range s) (cv_start s))) = ?cands"
    for sp
    using SelectorCV_loop_small [OF short, of sp fit score "candidate_range s"]
    by (simp_all add: cv_start_def candidate_range_def)
  have sel: "SelectorCV_select sp fit score s =
      (if ?cands \<noteq> [] then
         (case py_max ?cands of Inl e \<Rightarrow> Inl e | Inr maximum \<Rightarrow> Inr (snd maximum))
       else Inr (PyInt (self_n_constant s)), s)" for sp
    by (simp add: SelectorCV_select_start Let_def loop)
  have part5: "\<exists>c m. (c, PyModel m) \<in> set ?cands \<and>
         fst (SelectorCV_select split fit score s) = Inr (PyModel m) \<and>
         (\<forall>(c', v') \<in> set ?cands. \<not> fgt c' c)" if ne: "?cands \<noteq> []"
  proof -
    from ne obtain x xs where cons: "?cands = x # xs" by (cases ?cands) auto
    let ?r = "max_scan x xs"
    have res: "fst (SelectorCV_select split fit score s) = Inr (snd ?r)"
      unfolding sel cons by simp
    have mem: "?r \<in> set ?cands" unfolding cons by (rule max_scan_mem)
    then obtain n where "CV_single_candidate fit score s n = Some ?r"
      by (auto simp: List.map_filter_def)
    from CV_single_candidate_model [OF this] obtain m where m: "snd ?r = PyModel m"
      by blast
    have greatest: "\<not> fgt (fst y) (fst ?r)" if "y \<in> set ?cands" for y
      using that max_scan_greatest [of y x xs] unfolding cons by simp
    then have "\<forall>(c', v') \<in> set ?cands. \<not> fgt c' (fst ?r)" by fastforce
    moreover have "(fst ?r, PyModel m) \<in> set ?cands"
      using mem m by (metis prod.collapse)
    ultimately show ?thesis
      using res m by (intro exI [of _ "fst ?r"] exI [of _ m]) simp
  qed
  have "map_of (self_hwords s) (self_this_word s) = Some (self_X s, self_lengths s)"
    using ModelSelector_init_whole_word [OF assms(1)] by simp
  moreover have "snd (SelectorCV_select split fit score s) = s" unfolding sel by simp
  moreover have "\<forall>split'. SelectorCV_select split' fit score s = SelectorCV_select split fit score s"
    unfolding sel by simp
  ultimately show ?thesis using loop(2) [of split] part5 by blast
qed


lemma demo_short_candidates:
  "List.map_filter (CV_single_candidate demo_fit demo_cv_score demo_short_selector) [2..4] =
     [(Fin (- 10), PyModel (demo_model 2)), (Fin (- 4), PyModel (demo_model 3)),
      (Fin (- 5), PyModel (demo_model 4))]"
  by (simp add: List.map_filter_simps CV_single_candidate_def demo_cv_score_def demo_model_def
      demo_short_selector_def upto_rec1)

theorem SelectorCV_short_word_single_fit_witness:
  "ModelSelector_init [(''A'', [[[0]], [[1]]])] [(''A'', ([[0], [1]], [1, 1]))] ''A'' 3 2 4 14 False
     = Inr demo_short_selector \<and>
   length (self_sequences demo_short_selector) \<le> 2 \<and>
   cv_scores (snd (SelectorCV_loop demo_cv_split demo_fit demo_cv_score
       (candidate_range demo_short_selector) (cv_start demo_short_selector))) =
     [(Fin (- 10), PyModel (demo_model 2)), (Fin (- 4), PyModel (demo_model 3)),
      (Fin (- 5), PyModel (demo_model 4))] \<and>
   SelectorCV_select demo_cv_split demo_fit demo_cv_score demo_short_selector =
     (Inr (PyModel (demo_model 3)), demo_short_selector)"
proof -
  have init: "ModelSelector_init [(''A'', [[[0]], [[1]]])] [(''A'', ([[0], [1]], [1, 1]))]
      ''A'' 3 2 4 14 False = Inr demo_short_selector"
    by (simp add: ModelSelector_init_def demo_short_selector_def)
  have short: "length (self_sequences demo_short_selector) \<le> 2"
    by (simp add: demo_short_selector_def)
  have range: "[self_min_n_components demo_short_selector ..
      self_max_n_components demo_short_selector] = [2..4]"
    by (simp add: demo_short_selector_def)
  note T = SelectorCV_short_word_single_fit [OF init short,
      of demo_cv_split demo_fit demo_cv_score, unfolded range demo_short_candidates]
  from T have sc: "cv_scores (snd (SelectorCV_loop demo_cv_split demo_fit demo_cv_score
       (candidate_range demo_short_selector) (cv_start demo_short_selector))) =
     [(Fin (- 10), PyModel (demo_model 2)), (Fin (- 4), PyModel (demo_model 3)),
      (Fin (- 5), PyModel (demo_model 4))]"
    and s': "snd (SelectorCV_select demo_cv_split demo_fit demo_cv_score demo_short_selector)
      = demo_short_selector"
    by simp_all
  have "fst (SelectorCV_select demo_cv_split demo_fit demo_cv_score demo_short_selector) =
      Inr (PyModel (demo_model 3))"
    unfolding SelectorCV_select_start Let_def sc by (simp add: fgt_def)
  with s' have "SelectorCV_select demo_cv_split demo_fit demo_cv_score demo_short_selector =
     (Inr (PyModel (demo_model 3)), demo_short_selector)"
    by (metis prod.collapse)
  with init short sc show ?thesis by simp
qed

lemma demo_cv_run:
  "SelectorCV_loop demo_cv_split demo_fit demo_cv_score [2..4] (cv_start demo_cv_selector) =
     (Inr (),
      \<lparr>cv_self = demo_cv_selector\<lparr>self_X := [[0], [1]], self_lengths := [1, 1]\<rparr>,
       cv_likelihoods = LList [Fin (- 10), Fin (- 10), Fin (- 10), Fin (- 4), Fin (- 4),
         Fin (- 4), Fin (- 5), Fin (- 5), Fin (- 5)],
       cv_model = Some (PyModel (demo_model 4)),
       cv_scores = [(Fin (- 10), PyModel (demo_model 2)), (Fin (- 7), PyModel (demo_model 3)),
         (Fin (- 19 / 3), PyModel (demo_model 4))]\<rparr>)"
  by (simp add: upto_rec1 cv_start_def demo_cv_selector_def demo_cv_split_def
      SelectorCV_trial_def SelectorCV_fold_def combine_sequences_def base_model_Inr
      demo_cv_score_def demo_model_def np_mean_def Let_def)


text \<open>
  C2. On the word with three sequences, with every fold of the two-, three- and four-state
  model scoring -10, -4 and -5, the values recorded are -10, -7 and -19/3: the list
  \<open>likelihoods\<close> is not emptied between candidates, so the value of a candidate is the mean
  over the folds of all candidates tried so far, not the mean of its own folds (-10, -4,
  -5). The four-state model is returned, not the three-state model with the greatest own mean.
\<close>

theorem SelectorCV_mean_accumulates:
  "cv_scores (snd (SelectorCV_loop demo_cv_split demo_fit demo_cv_score
       (candidate_range demo_cv_selector) (cv_start demo_cv_selector))) =
     [(Fin (- 10), PyModel (demo_model 2)), (Fin (- 7), PyModel (demo_model 3)),
      (Fin (- 19 / 3), PyModel (demo_model 4))] \<and>
   np_mean [Fin (- 10), Fin (- 10), Fin (- 10)] = Fin (- 10) \<and>
   np_mean [Fin (- 4), Fin (- 4), Fin (- 4)] = Fin (- 4) \<and>
   np_mean [Fin (- 5), Fin (- 5), Fin (- 5)] = Fin (- 5) \<and>
   fst (SelectorCV_select demo_cv_split demo_fit demo_cv_score demo_cv_selector) =
     Inr (PyModel (demo_model 4))"
proof -
  have range: "candidate_range demo_cv_selector = [2..4]"
    by (simp add: candidate_range_def demo_cv_selector_def)
  have "fst (SelectorCV_select demo_cv_split demo_fit demo_cv_score demo_cv_selector) =
     Inr (PyModel (demo_model 4))"
    unfolding SelectorCV_select_start Let_def range demo_cv_run by (simp add: fgt_def)
  then show ?thesis
    unfolding range demo_cv_run by (simp add: np_mean_def)
qed

text \<open>
  C3 as stated fails: after \<open>select\<close> of \<open>SelectorCV\<close> on the word with three sequences,
  \<open>X\<close> and \<open>lengths\<close> of the selector hold the training data of the last fold.
\<close>

theorem SelectorCV_overwrites_X_counterexample:
  "snd (select CV demo_cv_split demo_fit demo_cv_score demo_cv_selector) =
     demo_cv_selector\<lparr>self_X := [[0], [1]], self_lengths := [1, 1]\<rparr> \<and>
   self_X demo_cv_selector = [[0], [1], [2]] \<and>
   self_lengths demo_cv_selector = [1, 1, 1] \<and>
   self_X (snd (select CV demo_cv_split demo_fit demo_cv_score demo_cv_selector)) \<noteq>
     self_X demo_cv_selector"
proof -
  have range: "candidate_range demo_cv_selector = [2..4]"
    by (simp add: candidate_range_def demo_cv_selector_def)
  have "snd (select CV demo_cv_split demo_fit demo_cv_score demo_cv_selector) =
     demo_cv_selector\<lparr>self_X := [[0], [1]], self_lengths := [1, 1]\<rparr>"
    unfolding select.simps SelectorCV_select_start Let_def range demo_cv_run by simp
  then show ?thesis by (simp add: demo_cv_selector_def)
qed

text \<open>
  C3 (as amended). Every \<open>select\<close> leaves unchanged the sequence collection, the two
  word mappings, the word, the bounds, the constant and the seed. \<open>SelectorConstant\<close>,
  \<open>SelectorBIC\<close>, \<open>SelectorDIC\<close>, and \<open>SelectorCV\<close> on a word with at most two
  sequences, leave the whole selector unchanged. \<open>SelectorCV\<close> on more than two sequences
  leaves in \<open>X\<close> and \<open>lengths\<close> either their old values or the training data of one of
  the folds.
\<close>

theorem select_frame:
  "same_inputs s (snd (select kind split fit score s)) \<and>
   (kind \<noteq> CV \<or> length (self_sequences s) \<le> 2 \<longrightarrow>
      snd (select kind split fit score s) = s) \<and>
   ((self_X (snd (select kind split fit score s)) = self_X s \<and>
     self_lengths (snd (select kind split fit score s)) = self_lengths s) \<or>
    (kind = CV \<and> length (self_sequences s) > 2 \<and>
     (\<exists>folds. split (length (self_sequences s)) = Inr folds \<and>
        (\<exists>indices \<in> set folds.
           combine_sequences (fst indices) (self_sequences s) =
             Inr (self_X (snd (select kind split fit score s)),
                  self_lengths (snd (select kind split fit score s)))))))"
proof (cases kind)
  case CV
  let ?fr = "snd (SelectorCV_loop split fit score (candidate_range s) (cv_start s))"
  have s': "snd (select kind split fit score s) = cv_self ?fr"
    by (simp add: CV SelectorCV_select_start Let_def)
  have start: "cv_self (cv_start s) = s" by (simp add: cv_start_def)
  have "same_inputs s (cv_self ?fr)"
    using SelectorCV_loop_inputs [of "cv_start s" split fit score "candidate_range s"]
    unfolding start .
  moreover have "cv_self ?fr = s" if "length (self_sequences s) \<le> 2"
    using SelectorCV_loop_small [of "cv_start s" split fit score "candidate_range s"] that
    unfolding start by simp
  moreover have "(self_X (cv_self ?fr) = self_X s \<and>
     self_lengths (cv_self ?fr) = self_lengths s) \<or>
    (length (self_sequences s) > 2 \<and>
     (\<exists>folds. split (length (self_sequences s)) = Inr folds \<and>
        (\<exists>indices \<in> set folds.
           combine_sequences (fst indices) (self_sequences s) =
             Inr (self_X (cv_self ?fr), self_lengths (cv_self ?fr)))))"
    using SelectorCV_loop_X [of split fit score "candidate_range s" "cv_start s"]
    unfolding start .
  ultimately show ?thesis unfolding s' using CV by blast
qed (simp_all add: same_inputs_refl)

theorem select_frame_witness:
  "same_inputs demo_cv_selector
     (demo_cv_selector\<lparr>self_X := [[0], [1]], self_lengths := [1, 1]\<rparr>) \<and>
   snd (select CV demo_cv_split demo_fit demo_cv_score demo_cv_selector) =
     demo_cv_selector\<lparr>self_X := [[0], [1]], self_lengths := [1, 1]\<rparr> \<and>
   length (self_sequences demo_short_selector) \<le> 2 \<and>
   snd (select CV demo_cv_split demo_fit demo_cv_score demo_short_selector) =
     demo_short_selector \<and>
   snd (select BIC demo_cv_split demo_fit demo_cv_score demo_cv_selector) = demo_cv_selector"
proof -
  have range: "candidate_range demo_cv_selector = [2..4]"
    by (simp add: candidate_range_def demo_cv_selector_def)
  have run: "snd (select CV demo_cv_split demo_fit demo_cv_score demo_cv_selector) =
     demo_cv_selector\<lparr>self_X := [[0], [1]], self_lengths := [1, 1]\<rparr>"
    unfolding select.simps SelectorCV_select_start Let_def range demo_cv_run by simp
  have short: "length (self_sequences demo_short_selector) \<le> 2"
    by (simp add: demo_short_selector_def)
  from select_frame [of demo_cv_selector CV demo_cv_split demo_fit demo_cv_score]
  have a: "same_inputs demo_cv_selector
     (demo_cv_selector\<lparr>self_X := [[0], [1]], self_lengths := [1, 1]\<rparr>)"
    unfolding run by (rule conjunct1)
  from select_frame [of demo_short_selector CV demo_cv_split demo_fit demo_cv_score] short
  have b: "snd (select CV demo_cv_split demo_fit demo_cv_score demo_short_selector) =
     demo_short_selector"
    by blast
  from select_frame [of demo_cv_selector BIC demo_cv_split demo_fit demo_cv_score]
  have c: "snd (select BIC demo_cv_split demo_fit demo_cv_score demo_cv_selector) =
     demo_cv_selector"
    by blast
  from a run short b c show ?thesis by blast
qed


lemma map_filter_mem: "r \<in> set (List.map_filter f ns) \<longleftrightarrow> (\<exists>n \<in> set ns. f n = Some r)"
  by (induction ns) (auto simp: List.map_filter_simps split: option.splits)

lemma map_filter_nonempty: "List.map_filter f ns \<noteq> [] \<longleftrightarrow> (\<exists>n \<in> set ns. f n \<noteq> None)"
  by (induction ns) (auto simp: List.map_filter_simps split: option.splits)

lemma SelectorConstant_select_eq:
  "SelectorConstant_select fit s =
     Inr (case fitted_model fit s (self_n_constant s) of None \<Rightarrow> PyNone | Some m \<Rightarrow> PyModel m)"
  by (simp add: SelectorConstant_select_def base_model_Inr)

lemma SelectorBIC_select_model:
  assumes "self_min_n_components s \<le> n" and "n \<le> self_max_n_components s"
    and "BIC_candidate fit score s n \<noteq> None"
  shows "\<exists>m. SelectorBIC_select fit score s = Inr (PyModel m) \<and>
           self_min_n_components s \<le> n_components m \<and>
           n_components m \<le> self_max_n_components s"
proof -
  let ?cands = "List.map_filter (BIC_candidate fit score s) (candidate_range s)"
  from assms(1,2) have "n \<in> set (candidate_range s)"
    by (simp add: candidate_range_def)
  with assms(3) have "?cands \<noteq> []"
    unfolding map_filter_nonempty by blast
  then obtain x xs where cons: "?cands = x # xs" by (cases ?cands) auto
  have sel: "SelectorBIC_select fit score s = Inr (snd (min_scan x xs))"
    by (simp add: SelectorBIC_select_def SelectorBIC_loop_eq cons)
  have "min_scan x xs \<in> set ?cands" unfolding cons by (rule min_scan_mem)
  then obtain k where k: "k \<in> set (candidate_range s)"
    and c: "BIC_candidate fit score s k = Some (min_scan x xs)"
    unfolding map_filter_mem by blast
  from BIC_candidate_model [OF c] obtain m where m: "snd (min_scan x xs) = PyModel m"
    and "fitted_model fit s k = Some m" by blast
  then have "n_components m = k" using fitted_model_states by blast
  with k sel m show ?thesis by (auto simp: candidate_range_def)
qed

lemma SelectorDIC_select_model:
  assumes "self_min_n_components s \<le> n" and "n \<le> self_max_n_components s"
    and "DIC_candidate fit score s n \<noteq> None"
  shows "\<exists>m. SelectorDIC_select fit score s = Inr (PyModel m) \<and>
           self_min_n_components s \<le> n_components m \<and>
           n_components m \<le> self_max_n_components s"
proof -
  let ?cands = "List.map_filter (DIC_candidate fit score s) (candidate_range s)"
  from assms(1,2) have "n \<in> set (candidate_range s)"
    by (simp add: candidate_range_def)
  with assms(3) have "?cands \<noteq> []"
    unfolding map_filter_nonempty by blast
  then obtain x xs where cons: "?cands = x # xs" by (cases ?cands) auto
  have sel: "SelectorDIC_select fit score s = Inr (snd (max_scan x xs))"
    by (simp add: SelectorDIC_select_def SelectorDIC_loop_eq cons)
  have "max_scan x xs \<in> set ?cands" unfolding cons by (rule max_scan_mem)
  then obtain k where k: "k \<in> set (candidate_range s)"
    and c: "DIC_candidate fit score s k = Some (max_scan x xs)"
    unfolding map_filter_mem by blast
  from DIC_candidate_model [OF c] obtain m where m: "snd (max_scan x xs) = PyModel m"
    and "fitted_model fit s k = Some m" by blast
  then have "n_components m = k" using fitted_model_states by blast
  with k sel m show ?thesis by (auto simp: candidate_range_def)
qed

lemma SelectorCV_select_model:
  assumes "\<And>k. split k \<noteq> Inr []"
    and "cv_scores (snd (SelectorCV_loop split fit score (candidate_range s) (cv_start s))) \<noteq> []"
  shows "\<exists>m. fst (SelectorCV_select split fit score s) = Inr (PyModel m) \<and>
           self_min_n_components s \<le> n_components m \<and>
           n_components m \<le> self_max_n_components s"
proof -
  let ?scores = "cv_scores (snd (SelectorCV_loop split fit score (candidate_range s) (cv_start s)))"
  from assms(2) obtain x xs where cons: "?scores = x # xs" by (cases ?scores) auto
  have sel: "fst (SelectorCV_select split fit score s) = Inr (snd (max_scan x xs))"
    by (simp add: SelectorCV_select_start Let_def cons)
  have "\<forall>(c, v) \<in> set (cv_scores (cv_start s :: 'a cv_frame)).
      \<exists>m. v = PyModel m \<and> n_components m \<in> set (candidate_range s)"
    by (simp add: cv_start_def)
  from SelectorCV_loop_models [of split "cv_start s" "set (candidate_range s)"
      "candidate_range s" fit score, OF assms(1) this]
  have all: "\<forall>(c, v) \<in> set ?scores. \<exists>m. v = PyModel m \<and> n_components m \<in> set (candidate_range s)"
    by simp
  have "max_scan x xs \<in> set ?scores" unfolding cons by (rule max_scan_mem)
  with all obtain m where "snd (max_scan x xs) = PyModel m"
    and "n_components m \<in> set (candidate_range s)"
    by (cases "max_scan x xs") auto
  with sel show ?thesis by (auto simp: candidate_range_def)
qed

text \<open>
  C1 (as amended). \<open>SelectorConstant\<close> returns the model fitted at the constant state
  count when that fit succeeds, and \<open>None\<close> when it fails. \<open>SelectorBIC\<close> and
  \<open>SelectorDIC\<close> return, whenever some candidate of the range completes its trial, a
  fitted model whose state count lies in the range; so does \<open>SelectorCV\<close>, the splitter
  never giving an empty list of folds.
\<close>

theorem select_model_in_range:
  "(\<forall>m. fitted_model fit s (self_n_constant s) = Some m \<longrightarrow>
      SelectorConstant_select fit s = Inr (PyModel m) \<and> n_components m = self_n_constant s) \<and>
   (fitted_model fit s (self_n_constant s) = None \<longrightarrow>
      SelectorConstant_select fit s = Inr PyNone) \<and>
   ((\<exists>n. self_min_n_components s \<le> n \<and> n \<le> self_max_n_components s \<and>
         BIC_candidate fit score s n \<noteq> None) \<longrightarrow>
    (\<exists>m. SelectorBIC_select fit score s = Inr (PyModel m) \<and>
        self_min_n_components s \<le> n_components m \<and>
        n_components m \<le> self_max_n_components s)) \<and>
   ((\<exists>n. self_min_n_components s \<le> n \<and> n \<le> self_max_n_components s \<and>
         DIC_candidate fit score s n \<noteq> None) \<longrightarrow>
    (\<exists>m. SelectorDIC_select fit score s = Inr (PyModel m) \<and>
        self_min_n_components s \<le> n_components m \<and>
        n_components m \<le> self_max_n_components s)) \<and>
   ((\<forall>k. split k \<noteq> Inr []) \<and>
    cv_scores (snd (SelectorCV_loop split fit score (candidate_range s) (cv_start s))) \<noteq> [] \<longrightarrow>
    (\<exists>m. fst (SelectorCV_select split fit score s) = Inr (PyModel m) \<and>
        self_min_n_components s \<le> n_components m \<and>
        n_components m \<le> self_max_n_components s))"
proof (intro conjI allI impI)
  fix m assume "fitted_model fit s (self_n_constant s) = Some m"
  then show "SelectorConstant_select fit s = Inr (PyModel m)"
    and "n_components m = self_n_constant s"
    by (simp_all add: SelectorConstant_select_eq fitted_model_states)
next
  assume "fitted_model fit s (self_n_constant s) = None"
  then show "SelectorConstant_select fit s = Inr PyNone"
    by (simp add: SelectorConstant_select_eq)
next
  assume "\<exists>n. self_min_n_components s \<le> n \<and> n \<le> self_max_n_components s \<and>
         BIC_candidate fit score s n \<noteq> None"
  then show "\<exists>m. SelectorBIC_select fit score s = Inr (PyModel m) \<and>
        self_min_n_components s \<le> n_components m \<and>
        n_components m \<le> self_max_n_components s"
    using SelectorBIC_select_model by blast
next
  assume "\<exists>n. self_min_n_components s \<le> n \<and> n \<le> self_max_n_components s \<and>
         DIC_candidate fit score s n \<noteq> None"
  then show "\<exists>m. SelectorDIC_select fit score s = Inr (PyModel m) \<and>
        self_min_n_components s \<le> n_components m \<and>
        n_components m \<le> self_max_n_components s"
    using SelectorDIC_select_model by blast
next
  assume "(\<forall>k. split k \<noteq> Inr []) \<and>
    cv_scores (snd (SelectorCV_loop split fit score (candidate_range s) (cv_start s))) \<noteq> []"
  then show "\<exists>m. fst (SelectorCV_select split fit score s) = Inr (PyModel m) \<and>
        self_min_n_components s \<le> n_components m \<and>
        n_components m \<le> self_max_n_components s"
    using SelectorCV_select_model [of split fit score s] by blast
qed

text \<open>
  C1 as stated fails: with a fitter that always fails, \<open>SelectorBIC\<close>, \<open>SelectorDIC\<close> and
  \<open>SelectorCV\<close> return the integer \<open>n_constant\<close>, and \<open>SelectorConstant\<close> returns \<open>None\<close>;
  neither is a fitted model.
\<close>

theorem select_fallback_counterexample:
  "SelectorBIC_select demo_failing_fit demo_score demo_bic_selector = Inr (PyInt 3) \<and>
   SelectorDIC_select demo_failing_fit demo_dic_score demo_dic_selector = Inr (PyInt 3) \<and>
   fst (SelectorCV_select demo_cv_split demo_failing_fit demo_cv_score demo_cv_selector) =
     Inr (PyInt 3) \<and>
   SelectorConstant_select demo_failing_fit demo_bic_selector = Inr PyNone"
proof -
  have none: "fitted_model demo_failing_fit s n = None" for s n
    by (simp add: fitted_model_def demo_failing_fit_def)
  have bic: "List.map_filter (BIC_candidate demo_failing_fit demo_score demo_bic_selector) ns = []"
    for ns
    by (simp add: List.map_filter_def BIC_candidate_def none)
  have dic: "List.map_filter (DIC_candidate demo_failing_fit demo_dic_score demo_dic_selector) ns = []"
    for ns
    by (simp add: List.map_filter_def DIC_candidate_def none)
  have cv: "SelectorCV_loop demo_cv_split demo_failing_fit demo_cv_score [2..4]
      (cv_start demo_cv_selector) =
     (Inr (),
      \<lparr>cv_self = demo_cv_selector\<lparr>self_X := [[1], [2]], self_lengths := [1, 1]\<rparr>,
       cv_likelihoods = LList [], cv_model = Some PyNone, cv_scores = []\<rparr>)"
    by (simp add: upto_rec1 cv_start_def demo_cv_selector_def demo_cv_split_def
      SelectorCV_trial_def SelectorCV_fold_def combine_sequences_def base_model_Inr none
      Let_def)
  have range: "candidate_range demo_cv_selector = [2..4]"
    by (simp add: candidate_range_def demo_cv_selector_def)
  have "fst (SelectorCV_select demo_cv_split demo_failing_fit demo_cv_score demo_cv_selector) =
     Inr (PyInt 3)"
    unfolding SelectorCV_select_start Let_def range cv by (simp add: demo_cv_selector_def)
  moreover have "SelectorBIC_select demo_failing_fit demo_score demo_bic_selector = Inr (PyInt 3)"
    unfolding SelectorBIC_select_def SelectorBIC_loop_eq bic
    by (simp add: demo_bic_selector_def)
  moreover have "SelectorDIC_select demo_failing_fit demo_dic_score demo_dic_selector =
      Inr (PyInt 3)"
    unfolding SelectorDIC_select_def SelectorDIC_loop_eq dic
    by (simp add: demo_dic_selector_def)
  moreover have "SelectorConstant_select demo_failing_fit demo_bic_selector = Inr PyNone"
    by (simp add: SelectorConstant_select_eq none)
  ultimately show ?thesis by simp
qed


theorem select_model_in_range_witness:
  "fitted_model demo_fit demo_bic_selector (self_n_constant demo_bic_selector) =
     Some (demo_model 3) \<and>
   SelectorConstant_select demo_fit demo_bic_selector = Inr (PyModel (demo_model 3)) \<and>
   BIC_candidate demo_fit demo_score demo_bic_selector 3 \<noteq> None \<and>
   (\<exists>m. SelectorBIC_select demo_fit demo_score demo_bic_selector = Inr (PyModel m) \<and>
      2 \<le> n_components m \<and> n_components m \<le> 6) \<and>
   DIC_candidate demo_fit demo_dic_score demo_dic_selector 3 \<noteq> None \<and>
   (\<exists>m. SelectorDIC_select demo_fit demo_dic_score demo_dic_selector = Inr (PyModel m) \<and>
      2 \<le> n_components m \<and> n_components m \<le> 4) \<and>
   (\<exists>m. fst (SelectorCV_select demo_cv_split demo_fit demo_cv_score demo_cv_selector) =
        Inr (PyModel m) \<and> 2 \<le> n_components m \<and> n_components m \<le> 4)"
proof -
  note T = select_model_in_range [of demo_fit demo_bic_selector demo_score demo_cv_split]
  note D = select_model_in_range [of demo_fit demo_dic_selector demo_dic_score demo_cv_split]
  note V = select_model_in_range [of demo_fit demo_cv_selector demo_cv_score demo_cv_split]
  have f3: "fitted_model demo_fit demo_bic_selector (self_n_constant demo_bic_selector) =
     Some (demo_model 3)"
    by (simp add: demo_bic_selector_def demo_model_def)
  from T f3 have const: "SelectorConstant_select demo_fit demo_bic_selector =
      Inr (PyModel (demo_model 3))"
    by blast
  have b3: "BIC_candidate demo_fit demo_score demo_bic_selector 3 \<noteq> None"
    by (simp add: BIC_candidate_def demo_score_def demo_model_def)
  have "self_min_n_components demo_bic_selector \<le> 3 \<and> 3 \<le> self_max_n_components demo_bic_selector"
    by (simp add: demo_bic_selector_def)
  with b3 T have "\<exists>m. SelectorBIC_select demo_fit demo_score demo_bic_selector = Inr (PyModel m) \<and>
      self_min_n_components demo_bic_selector \<le> n_components m \<and>
      n_components m \<le> self_max_n_components demo_bic_selector"
    by blast
  then have bic: "\<exists>m. SelectorBIC_select demo_fit demo_score demo_bic_selector = Inr (PyModel m) \<and>
      2 \<le> n_components m \<and> n_components m \<le> 6"
    by (simp add: demo_bic_selector_def)
  have d3: "DIC_candidate demo_fit demo_dic_score demo_dic_selector 3 \<noteq> None"
    by (simp add: DIC_candidate_def DIC_other_scores_def demo_dic_score_def demo_model_def
        demo_dic_selector_def)
  have "self_min_n_components demo_dic_selector \<le> 3 \<and> 3 \<le> self_max_n_components demo_dic_selector"
    by (simp add: demo_dic_selector_def)
  with d3 D have "\<exists>m. SelectorDIC_select demo_fit demo_dic_score demo_dic_selector =
        Inr (PyModel m) \<and>
      self_min_n_components demo_dic_selector \<le> n_components m \<and>
      n_components m \<le> self_max_n_components demo_dic_selector"
    by blast
  then have dic: "\<exists>m. SelectorDIC_select demo_fit demo_dic_score demo_dic_selector =
        Inr (PyModel m) \<and> 2 \<le> n_components m \<and> n_components m \<le> 4"
    by (simp add: demo_dic_selector_def)
  have folds: "\<forall>k. demo_cv_split k \<noteq> Inr []"
    by (simp add: demo_cv_split_def)
  have range: "candidate_range demo_cv_selector = [2..4]"
    by (simp add: candidate_range_def demo_cv_selector_def)
  have "cv_scores (snd (SelectorCV_loop demo_cv_split demo_fit demo_cv_score
      (candidate_range demo_cv_selector) (cv_start demo_cv_selector))) \<noteq> []"
    unfolding range demo_cv_run by simp
  with folds V have "\<exists>m. fst (SelectorCV_select demo_cv_split demo_fit demo_cv_score
        demo_cv_selector) = Inr (PyModel m) \<and>
      self_min_n_components demo_cv_selector \<le> n_components m \<and>
      n_components m \<le> self_max_n_components demo_cv_selector"
    by blast
  then have cv: "\<exists>m. fst (SelectorCV_select demo_cv_split demo_fit demo_cv_score
        demo_cv_selector) = Inr (PyModel m) \<and> 2 \<le> n_components m \<and> n_components m \<le> 4"
    by (simp add: demo_cv_selector_def)
  from f3 const b3 bic d3 dic cv show ?thesis by blast
qed






end
